theory Spec2Isabelle
  imports Complex_Main "HOL-Library.Product_Lexorder"
begin

section \<open>The seat store\<close>

text \<open>
  The five relations of the reservation core, with the columns the handlers read and
  write. Identifiers are the strings the handlers pass around; instants are milliseconds
  since the epoch, the unit of \<^verbatim>\<open>Date.now()\<close>.
\<close>

type_synonym ident = string
type_synonym instant = int

datatype seat_type = Regular | Premium | Vip

record seat =
  seat_ident :: ident
  seat_theater_id :: ident
  row_number :: int
  seat_number :: int
  seat_kind :: seat_type
  is_active :: bool

text \<open>
  Of a showtime the handlers read the id and, through the embedded \<^verbatim>\<open>theaters\<close> row, the
  id of its theater.
\<close>

record showtime =
  st_ident :: ident
  st_theater_id :: ident

record seat_lock =
  sl_seat_id :: ident
  sl_showtime_id :: ident
  sl_user_id :: ident
  locked_until :: instant

datatype booking_status = Pending | Paid | Confirmed | Cancelled

record booking =
  bk_ident :: ident
  bk_user_id :: ident
  bk_showtime_id :: ident
  total_amount :: rat
  booking_date :: instant
  bk_status :: booking_status

record booking_seat =
  bs_booking_id :: ident
  bs_seat_id :: ident
  bs_showtime_id :: ident

datatype payment_status = PaymentPending | PaymentCompleted | PaymentFailed

record payment =
  pay_booking_id :: ident
  stripe_payment_intent_id :: ident
  pay_amount :: rat
  pay_status :: payment_status
  payment_date :: "instant option"

record store =
  showtimes :: "showtime list"
  seats :: "seat list"
  seat_locks :: "seat_lock list"
  bookings :: "booking list"
  booking_seats :: "booking_seat list"
  payments :: "payment list"

section \<open>Real-time events\<close>

text \<open>
  \<^verbatim>\<open>socket.to(room).emit\<close> reaches the room without the sender, \<^verbatim>\<open>io.to(room).emit\<close>
  the whole room, \<^verbatim>\<open>socket.emit\<close> the sender alone.
\<close>

datatype audience = RoomExceptSender string | WholeRoom string | SenderOnly

datatype payload =
    SeatsLocked "ident list" ident instant
  | SeatsReleased "ident list"
  | SeatsBooked "ident list" ident
  | SeatSelectionError
  | BookingConfirmationError

type_synonym event = "audience \<times> payload"

definition room_of :: "ident \<Rightarrow> string" where
  "room_of showtimeId = ''showtime-'' @ showtimeId"

section \<open>Socket handlers\<close>

datatype action = Select | Deselect | OtherAction

record select_seats_data =
  ss_showtimeId :: ident
  ss_seatIds :: "ident list"
  ss_action :: action

definition lock_ttl_ms :: int where
  "lock_ttl_ms = 10 * 60 * 1000"

text \<open>
  Modelled from the spec: the conflict target of \<^verbatim>\<open>seat_locks\<close>. The table's schema is
  not part of the sources; the spec has a lock row "keyed uniquely on (seat, showtime)",
  so \<^verbatim>\<open>upsert\<close> replaces the row with the same seat and showtime and inserts otherwise.
\<close>

fun upsert :: "seat_lock \<Rightarrow> seat_lock list \<Rightarrow> seat_lock list" where
  "upsert r [] = [r]"
| "upsert r (l # ls) =
     (if sl_seat_id l = sl_seat_id r \<and> sl_showtime_id l = sl_showtime_id r
      then r # ls else l # upsert r ls)"

text \<open>\<^verbatim>\<open>.delete().eq('seat_id', seatId).eq('user_id', userId)\<close>\<close>

definition delete_seat_user :: "ident \<Rightarrow> ident \<Rightarrow> seat_lock list \<Rightarrow> seat_lock list" where
  "delete_seat_user seatId userId ls =
     filter (\<lambda>l. \<not> (sl_seat_id l = seatId \<and> sl_user_id l = userId)) ls"

text \<open>\<^verbatim>\<open>.delete().in('seat_id', seatIds).eq('user_id', userId)\<close>\<close>

definition delete_seats_user :: "ident list \<Rightarrow> ident \<Rightarrow> seat_lock list \<Rightarrow> seat_lock list" where
  "delete_seats_user seatIds userId ls =
     filter (\<lambda>l. \<not> (sl_seat_id l \<in> set seatIds \<and> sl_user_id l = userId)) ls"

text \<open>
  The \<^verbatim>\<open>select-seats\<close> handler. The store client returns a failed call as a value, which
  the handler never reads, so its \<^verbatim>\<open>catch\<close> branch has no caller here; every write is
  taken as applied.
\<close>

definition select_seats ::
  "ident \<Rightarrow> instant \<Rightarrow> select_seats_data \<Rightarrow> store \<Rightarrow> store \<times> event list" where
  "select_seats userId now d s =
     (case ss_action d of
        Select \<Rightarrow>
          (let lockExpiry = now + lock_ttl_ms in
           (s\<lparr>seat_locks :=
                foldl (\<lambda>ls seatId.
                         upsert \<lparr>sl_seat_id = seatId, sl_showtime_id = ss_showtimeId d,
                                 sl_user_id = userId, locked_until = lockExpiry\<rparr> ls)
                      (seat_locks s) (ss_seatIds d)\<rparr>,
            [(RoomExceptSender (room_of (ss_showtimeId d)),
              SeatsLocked (ss_seatIds d) userId lockExpiry)]))
      | Deselect \<Rightarrow>
          (s\<lparr>seat_locks :=
               foldl (\<lambda>ls seatId. delete_seat_user seatId userId ls)
                     (seat_locks s) (ss_seatIds d)\<rparr>,
           [(RoomExceptSender (room_of (ss_showtimeId d)), SeatsReleased (ss_seatIds d))])
      | OtherAction \<Rightarrow> (s, []))"

text \<open>
  The sources do not hold the schema of \<^verbatim>\<open>seat_locks\<close>, and the handler passes no
  \<^verbatim>\<open>onConflict\<close> and drops the result of the write. \<open>select_seats_with\<close> is the same
  handler with the store's upsert as a parameter; \<open>select_seats\<close> is its instance at
  \<open>upsert\<close>. On a table with a surrogate key and a unique constraint on seat and
  showtime the write of a row whose seat and showtime are taken is refused, and the
  handler goes on: \<open>insert_unless_held\<close>.
\<close>

definition select_seats_with ::
  "(seat_lock \<Rightarrow> seat_lock list \<Rightarrow> seat_lock list) \<Rightarrow>
     ident \<Rightarrow> instant \<Rightarrow> select_seats_data \<Rightarrow> store \<Rightarrow> store \<times> event list" where
  "select_seats_with write userId now d s =
     (case ss_action d of
        Select \<Rightarrow>
          (let lockExpiry = now + lock_ttl_ms in
           (s\<lparr>seat_locks :=
                foldl (\<lambda>ls seatId.
                         write \<lparr>sl_seat_id = seatId, sl_showtime_id = ss_showtimeId d,
                                sl_user_id = userId, locked_until = lockExpiry\<rparr> ls)
                      (seat_locks s) (ss_seatIds d)\<rparr>,
            [(RoomExceptSender (room_of (ss_showtimeId d)),
              SeatsLocked (ss_seatIds d) userId lockExpiry)]))
      | Deselect \<Rightarrow>
          (s\<lparr>seat_locks :=
               foldl (\<lambda>ls seatId. delete_seat_user seatId userId ls)
                     (seat_locks s) (ss_seatIds d)\<rparr>,
           [(RoomExceptSender (room_of (ss_showtimeId d)), SeatsReleased (ss_seatIds d))])
      | OtherAction \<Rightarrow> (s, []))"


record confirm_booking_data =
  cb_showtimeId :: ident
  cb_bookingId :: ident
  cb_seatIds :: "ident list"

definition confirm_booking ::
  "ident \<Rightarrow> confirm_booking_data \<Rightarrow> store \<Rightarrow> store \<times> event list" where
  "confirm_booking userId d s =
     (s\<lparr>seat_locks :=
          foldl (\<lambda>ls seatId. delete_seat_user seatId userId ls)
                (seat_locks s) (cb_seatIds d)\<rparr>,
      [(WholeRoom (room_of (cb_showtimeId d)), SeatsBooked (cb_seatIds d) (cb_bookingId d))])"

definition disconnect :: "ident \<Rightarrow> store \<Rightarrow> store" where
  "disconnect userId s =
     s\<lparr>seat_locks := filter (\<lambda>l. sl_user_id l \<noteq> userId) (seat_locks s)\<rparr>"

text \<open>The row stored for a seat and showtime, if any.\<close>

definition find_lock :: "ident \<Rightarrow> ident \<Rightarrow> seat_lock list \<Rightarrow> seat_lock option" where
  "find_lock seatId showtimeId ls =
     find (\<lambda>l. sl_seat_id l = seatId \<and> sl_showtime_id l = showtimeId) ls"

text \<open>The pair that the spec has unique among the lock rows.\<close>

definition lock_key :: "seat_lock \<Rightarrow> ident \<times> ident" where
  "lock_key l = (sl_seat_id l, sl_showtime_id l)"

section \<open>Store faults\<close>

text \<open>
  A failed query comes back as a value. Where a handler reads the error (or the missing
  data) of a call, that call is a fault point: \<open>f c\<close> says that call \<open>c\<close> fails in
  this run. The result of every other call is dropped by the handlers; those calls are
  taken as applied, but for the compensating delete of a booking: what the store holds
  after a failed request depends on it, so it is a fault point as well.
\<close>

datatype db_call =
    ShowtimeSelect | SeatsSelect | LocksSelect | BookedSelect | LockedSelect
  | BookingInsert | BookingSeatsInsert | BookingDelete | FullBookingSelect
  | PaymentUpdate | BookingUpdate | BookingSeatsSelect | ExpiredSelect

type_synonym faults = "db_call \<Rightarrow> bool"

definition no_faults :: faults where
  "no_faults = (\<lambda>c. False)"

definition fails_in :: "db_call list \<Rightarrow> faults" where
  "fails_in cs = (\<lambda>c. c \<in> set cs)"

section \<open>The reconciliation sweeper\<close>

definition sweep_interval_ms :: int where
  "sweep_interval_ms = 60000"

text \<open>
  \<^verbatim>\<open>locksByShowtime\<close>, a \<^verbatim>\<open>Record<string, string[]>\<close> filled in the order of the
  expired rows: a new showtime gets an empty array at the end, then the seat is pushed to
  the showtime's array. \<^verbatim>\<open>Object.entries\<close> lists the keys in this order of insertion
  (showtime ids are UUIDs, not array indices).
\<close>

fun push_seat :: "(ident \<times> ident list) list \<Rightarrow> ident \<Rightarrow> ident \<Rightarrow> (ident \<times> ident list) list" where
  "push_seat [] k v = [(k, [v])]"
| "push_seat ((k', vs) # g) k v =
     (if k' = k then (k', vs @ [v]) # g else (k', vs) # push_seat g k v)"

definition group_by_showtime :: "seat_lock list \<Rightarrow> (ident \<times> ident list) list" where
  "group_by_showtime expiredLocks =
     foldl (\<lambda>g l. push_seat g (sl_showtime_id l) (sl_seat_id l)) [] expiredLocks"

definition sweep :: "faults \<Rightarrow> instant \<Rightarrow> store \<Rightarrow> store \<times> event list" where
  "sweep f now s =
     (if f ExpiredSelect then (s, [])
      else
        (let expiredLocks = filter (\<lambda>l. locked_until l < now) (seat_locks s) in
         if length expiredLocks > 0 then
           (let locksByShowtime = group_by_showtime expiredLocks in
            (s\<lparr>seat_locks := filter (\<lambda>l. \<not> locked_until l < now) (seat_locks s)\<rparr>,
             map (\<lambda>(showtimeId, seatIds).
                    (WholeRoom (room_of showtimeId), SeatsReleased seatIds))
                 locksByShowtime))
         else (s, [])))"

text \<open>\<^verbatim>\<open>setInterval(..., 60000)\<close> started at \<open>start\<close>: the ticks, counted from 0.\<close>

definition tick_time :: "instant \<Rightarrow> nat \<Rightarrow> instant" where
  "tick_time start k = start + (int k + 1) * sweep_interval_ms"

fun sweeps :: "instant list \<Rightarrow> store \<Rightarrow> store" where
  "sweeps [] s = s"
| "sweeps (t # ts) s = sweeps ts (fst (sweep no_faults t s))"

text \<open>
  The rows a tick at \<open>now\<close> selects, \<^verbatim>\<open>.lt('locked_until', now)\<close>, and the seats of
  one showtime among some rows, in their order.
\<close>

definition expired :: "instant \<Rightarrow> store \<Rightarrow> seat_lock list" where
  "expired now s = filter (\<lambda>l. locked_until l < now) (seat_locks s)"

definition seats_of :: "ident \<Rightarrow> seat_lock list \<Rightarrow> ident list" where
  "seats_of k ls = map sl_seat_id (filter (\<lambda>l. sl_showtime_id l = k) ls)"

section \<open>Booking creation\<close>

record create_booking_body =
  showtimeId :: ident
  seatIds :: "ident list"
  totalAmount :: rat

text \<open>
  \<^verbatim>\<open>createBookingSchema\<close>: between one and ten seats and a positive amount. The
  identifiers of a body are taken as well-formed UUIDs.
\<close>

definition createBookingSchema :: "create_booking_body \<Rightarrow> bool" where
  "createBookingSchema b =
     (1 \<le> length (seatIds b) \<and> length (seatIds b) \<le> 10 \<and> 0 < totalAmount b)"

datatype booking_response =
    Created booking
  | Rejected nat string
  | Thrown db_call

text \<open>
  The inner join \<^verbatim>\<open>bookings!inner (status)\<close> with
  \<^verbatim>\<open>.in('bookings.status', ['confirmed', 'paid'])\<close>: the link's booking exists and is
  confirmed or paid.
\<close>

definition taken :: "booking list \<Rightarrow> booking_seat \<Rightarrow> bool" where
  "taken bks r =
     (filter (\<lambda>b. bk_ident b = bs_booking_id r \<and>
                    (bk_status b = Confirmed \<or> bk_status b = Paid)) bks \<noteq> [])"

definition create_booking ::
  "faults \<Rightarrow> ident \<Rightarrow> instant \<Rightarrow> ident \<Rightarrow> create_booking_body \<Rightarrow> store
     \<Rightarrow> store \<times> booking_response" where
  "create_booking f newId now userId b s =
     (if \<not> createBookingSchema b then (s, Rejected 400 ''Validation error'')
      else if f ShowtimeSelect \<or>
              length (filter (\<lambda>t. st_ident t = showtimeId b) (showtimes s)) \<noteq> 1
      then (s, Rejected 404 ''Showtime not found'')
      else if f LocksSelect then (s, Thrown LocksSelect)
      else
        (let seatLocks =
               filter (\<lambda>l. sl_showtime_id l = showtimeId b \<and> sl_user_id l = userId \<and>
                            sl_seat_id l \<in> set (seatIds b)) (seat_locks s) in
         if length seatLocks \<noteq> length (seatIds b)
         then (s, Rejected 400 ''Some seats are not locked by you or unavailable'')
         else if f BookedSelect then (s, Thrown BookedSelect)
         else
           (let bookedSeats =
                  filter (\<lambda>r. bs_showtime_id r = showtimeId b \<and>
                               bs_seat_id r \<in> set (seatIds b) \<and> taken (bookings s) r)
                         (booking_seats s) in
            if length bookedSeats > 0
            then (s, Rejected 400 ''Some seats are already booked'')
            else if f BookingInsert then (s, Thrown BookingInsert)
            else
              (let booking = \<lparr>bk_ident = newId, bk_user_id = userId,
                               bk_showtime_id = showtimeId b, total_amount = totalAmount b,
                               booking_date = now, bk_status = Pending\<rparr>;
                   s1 = s\<lparr>bookings := bookings s @ [booking]\<rparr> in
               if f BookingSeatsInsert
               then ((if f BookingDelete then s1
                      else s1\<lparr>bookings :=
                                filter (\<lambda>x. bk_ident x \<noteq> bk_ident booking) (bookings s1)\<rparr>),
                     Thrown BookingSeatsInsert)
               else
                 (let s2 = s1\<lparr>booking_seats :=
                                 booking_seats s1 @
                                 map (\<lambda>seatId. \<lparr>bs_booking_id = bk_ident booking,
                                                  bs_seat_id = seatId,
                                                  bs_showtime_id = showtimeId b\<rparr>)
                                     (seatIds b)\<rparr> in
                  if f FullBookingSelect \<or>
                     length (filter (\<lambda>x. bk_ident x = bk_ident booking) (bookings s2)) \<noteq> 1
                  then (s2, Thrown FullBookingSelect)
                  else (s2, Created booking))))))"

text \<open>
  The request passes the four checks of the handler: the schema, the showtime, the
  user's lock rows and the seats already booked.
\<close>

definition passes_checks :: "ident \<Rightarrow> create_booking_body \<Rightarrow> store \<Rightarrow> bool" where
  "passes_checks userId b s =
     (createBookingSchema b \<and>
      length (filter (\<lambda>t. st_ident t = showtimeId b) (showtimes s)) = 1 \<and>
      length (filter (\<lambda>l. sl_showtime_id l = showtimeId b \<and> sl_user_id l = userId \<and>
                           sl_seat_id l \<in> set (seatIds b)) (seat_locks s)) =
        length (seatIds b) \<and>
      filter (\<lambda>r. bs_showtime_id r = showtimeId b \<and>
                   bs_seat_id r \<in> set (seatIds b) \<and> taken (bookings s) r)
             (booking_seats s) = [])"

text \<open>The rows of the two inserts.\<close>

definition new_booking :: "ident \<Rightarrow> instant \<Rightarrow> ident \<Rightarrow> create_booking_body \<Rightarrow> booking" where
  "new_booking newId now userId b =
     \<lparr>bk_ident = newId, bk_user_id = userId, bk_showtime_id = showtimeId b,
      total_amount = totalAmount b, booking_date = now, bk_status = Pending\<rparr>"

definition new_links :: "ident \<Rightarrow> create_booking_body \<Rightarrow> booking_seat list" where
  "new_links newId b =
     map (\<lambda>seatId. \<lparr>bs_booking_id = newId, bs_seat_id = seatId,
                      bs_showtime_id = showtimeId b\<rparr>) (seatIds b)"

section \<open>The payment webhook\<close>

text \<open>
  The event after its signature has been verified: the payment intent's id and, for a
  success, the \<^verbatim>\<open>bookingId\<close> and \<^verbatim>\<open>userId\<close> of its metadata.
\<close>

datatype stripe_event =
    PaymentIntentSucceeded ident ident ident
  | PaymentIntentPaymentFailed ident
  | UnhandledEvent

datatype webhook_response = Received | WebhookFailed db_call

text \<open>The three row updates of the handler, each applied to the rows its filter selects.\<close>

definition mark_completed :: "ident \<Rightarrow> instant \<Rightarrow> payment \<Rightarrow> payment" where
  "mark_completed intentId now p =
     (if stripe_payment_intent_id p = intentId
      then p\<lparr>pay_status := PaymentCompleted, payment_date := Some now\<rparr> else p)"

definition mark_paid :: "ident \<Rightarrow> booking \<Rightarrow> booking" where
  "mark_paid bookingId b = (if bk_ident b = bookingId then b\<lparr>bk_status := Paid\<rparr> else b)"

definition mark_failed :: "ident \<Rightarrow> payment \<Rightarrow> payment" where
  "mark_failed intentId p =
     (if stripe_payment_intent_id p = intentId then p\<lparr>pay_status := PaymentFailed\<rparr> else p)"

definition webhook ::
  "faults \<Rightarrow> instant \<Rightarrow> stripe_event \<Rightarrow> store \<Rightarrow> store \<times> event list \<times> webhook_response" where
  "webhook f now ev s =
     (case ev of
        PaymentIntentSucceeded intentId bookingId userId \<Rightarrow>
          if f PaymentUpdate then (s, [], WebhookFailed PaymentUpdate)
          else
            (let s1 = s\<lparr>payments := map (mark_completed intentId now) (payments s)\<rparr> in
             if f BookingUpdate then (s1, [], WebhookFailed BookingUpdate)
             else
               (let s2 = s1\<lparr>bookings := map (mark_paid bookingId) (bookings s1)\<rparr> in
                if f BookingSeatsSelect then (s2, [], WebhookFailed BookingSeatsSelect)
                else
                  (let bookingSeats =
                         filter (\<lambda>r. bs_booking_id r = bookingId) (booking_seats s2) in
                   case bookingSeats of
                     [] \<Rightarrow> (s2, [], Received)
                   | r # _ \<Rightarrow>
                       (let showtimeId = bs_showtime_id r;
                            seatIds = map bs_seat_id bookingSeats in
                        (s2\<lparr>seat_locks := delete_seats_user seatIds userId (seat_locks s2)\<rparr>,
                         [(WholeRoom (room_of showtimeId), SeatsBooked seatIds bookingId)],
                         Received)))))
      | PaymentIntentPaymentFailed intentId \<Rightarrow>
          (s\<lparr>payments := map (mark_failed intentId) (payments s)\<rparr>, [], Received)
      | UnhandledEvent \<Rightarrow> (s, [], Received))"

text \<open>
  \<^verbatim>\<open>confirmPayment\<close>: the success case of the handler in a run where no store call
  fails; \<open>booking_links\<close> is its query for the seat links of the booking.
\<close>

definition confirm_payment ::
  "instant \<Rightarrow> ident \<Rightarrow> ident \<Rightarrow> ident \<Rightarrow> store \<Rightarrow> store \<times> event list \<times> webhook_response" where
  "confirm_payment now intentId bookingId userId s =
     webhook no_faults now (PaymentIntentSucceeded intentId bookingId userId) s"

definition booking_links :: "ident \<Rightarrow> store \<Rightarrow> booking_seat list" where
  "booking_links bookingId s = filter (\<lambda>r. bs_booking_id r = bookingId) (booking_seats s)"

section \<open>The seat map\<close>

datatype seat_status = Available | Locked | Booked

record seat_view =
  sv_seat :: seat
  status :: seat_status
  lockedBy :: "ident option"
  lockedUntil :: "instant option"

datatype seats_response =
    SeatMap showtime "seat_view list"
  | SeatsRejected nat string
  | SeatsThrown db_call

text \<open>\<^verbatim>\<open>x || null\<close> on a string: the empty string is falsy.\<close>

definition or_null :: "string \<Rightarrow> string option" where
  "or_null x = (if x = [] then None else Some x)"

definition seatStatus ::
  "booking_seat list \<Rightarrow> seat_lock list \<Rightarrow> seat \<Rightarrow> seat_view" where
  "seatStatus bookedSeats lockedSeats seat =
     (let isBooked = list_ex (\<lambda>bs. bs_seat_id bs = seat_ident seat) bookedSeats;
          lock = find (\<lambda>ls. sl_seat_id ls = seat_ident seat) lockedSeats in
      \<lparr>sv_seat = seat,
       status = (if isBooked then Booked else if lock \<noteq> None then Locked else Available),
       lockedBy = (case lock of None \<Rightarrow> None | Some l \<Rightarrow> or_null (sl_user_id l)),
       lockedUntil = (case lock of None \<Rightarrow> None | Some l \<Rightarrow> Some (locked_until l))\<rparr>)"

definition get_showtime_seats ::
  "faults \<Rightarrow> instant \<Rightarrow> ident \<Rightarrow> store \<Rightarrow> seats_response" where
  "get_showtime_seats f now showtimeId' s =
     (if f ShowtimeSelect then SeatsRejected 404 ''Showtime not found''
      else
        (case filter (\<lambda>t. st_ident t = showtimeId') (showtimes s) of
           [t] \<Rightarrow>
             if f SeatsSelect then SeatsThrown SeatsSelect
             else
               (let theaterSeats =
                      sort_key (\<lambda>x. (row_number x, seat_number x))
                        (filter (\<lambda>x. seat_theater_id x = st_theater_id t) (seats s)) in
                if f BookedSelect then SeatsThrown BookedSelect
                else
                  (let bookedSeats =
                         filter (\<lambda>r. bs_showtime_id r = showtimeId' \<and> taken (bookings s) r)
                                (booking_seats s) in
                   if f LockedSelect then SeatsThrown LockedSelect
                   else
                     (let lockedSeats =
                            filter (\<lambda>l. sl_showtime_id l = showtimeId' \<and> locked_until l > now)
                                   (seat_locks s) in
                      SeatMap t (map (seatStatus bookedSeats lockedSeats) theaterSeats))))
         | _ \<Rightarrow> SeatsRejected 404 ''Showtime not found''))"

section \<open>Example stores\<close>

text \<open>
  One theater with three seats and three showtimes. In showtime S1 seat A1 is sold (a link
  under the paid booking B1) and seat A2 is held by user U until instant 600000.
\<close>

definition demo_store :: store where
  "demo_store =
     \<lparr>showtimes = [\<lparr>st_ident = ''S1'', st_theater_id = ''T1''\<rparr>,
                   \<lparr>st_ident = ''S2'', st_theater_id = ''T1''\<rparr>,
                   \<lparr>st_ident = ''S3'', st_theater_id = ''T1''\<rparr>],
      seats = [\<lparr>seat_ident = ''A2'', seat_theater_id = ''T1'', row_number = 1, seat_number = 2,
                 seat_kind = Regular, is_active = True\<rparr>,
               \<lparr>seat_ident = ''A1'', seat_theater_id = ''T1'', row_number = 1, seat_number = 1,
                 seat_kind = Regular, is_active = True\<rparr>,
               \<lparr>seat_ident = ''A3'', seat_theater_id = ''T1'', row_number = 1, seat_number = 3,
                 seat_kind = Vip, is_active = True\<rparr>],
      seat_locks = [\<lparr>sl_seat_id = ''A2'', sl_showtime_id = ''S1'', sl_user_id = ''U'',
                      locked_until = 600000\<rparr>],
      bookings = [\<lparr>bk_ident = ''B1'', bk_user_id = ''U'', bk_showtime_id = ''S1'',
                    total_amount = 12, booking_date = 0, bk_status = Paid\<rparr>],
      booking_seats = [\<lparr>bs_booking_id = ''B1'', bs_seat_id = ''A1'', bs_showtime_id = ''S1''\<rparr>],
      payments = []\<rparr>"

definition demo_select :: select_seats_data where
  "demo_select = \<lparr>ss_showtimeId = ''S1'', ss_seatIds = [''A1'', ''A2'', ''A3''], ss_action = Select\<rparr>"


text \<open>
  User U holds seat A1 in the showtimes S1 and S2, user W holds it in S3.
\<close>

definition two_showtimes_store :: store where
  "two_showtimes_store =
     demo_store\<lparr>seat_locks :=
       [\<lparr>sl_seat_id = ''A1'', sl_showtime_id = ''S1'', sl_user_id = ''U'', locked_until = 600000\<rparr>,
        \<lparr>sl_seat_id = ''A1'', sl_showtime_id = ''S2'', sl_user_id = ''U'', locked_until = 700000\<rparr>,
        \<lparr>sl_seat_id = ''A1'', sl_showtime_id = ''S3'', sl_user_id = ''W'', locked_until = 700000\<rparr>,
        \<lparr>sl_seat_id = ''A2'', sl_showtime_id = ''S1'', sl_user_id = ''U'', locked_until = 600000\<rparr>]\<rparr>"

definition demo_deselect :: select_seats_data where
  "demo_deselect = \<lparr>ss_showtimeId = ''S1'', ss_seatIds = [''A1''], ss_action = Deselect\<rparr>"

text \<open>A confirmation that names a booking the store does not hold.\<close>

definition demo_confirm :: confirm_booking_data where
  "demo_confirm = \<lparr>cb_showtimeId = ''S1'', cb_bookingId = ''no-such-booking'', cb_seatIds = [''A1'']\<rparr>"

text \<open>
  User U has sold seat A1 (booking B1, paid) and a pending booking B2 for the seats A2 and
  A3, both still locked, with a pending payment for the intent \<^verbatim>\<open>pi_2\<close>.
\<close>

definition payment_store :: store where
  "payment_store =
     demo_store\<lparr>
       seat_locks := [\<lparr>sl_seat_id = ''A2'', sl_showtime_id = ''S1'', sl_user_id = ''U'',
                        locked_until = 600000\<rparr>,
                      \<lparr>sl_seat_id = ''A3'', sl_showtime_id = ''S1'', sl_user_id = ''U'',
                        locked_until = 600000\<rparr>],
       bookings := [\<lparr>bk_ident = ''B1'', bk_user_id = ''U'', bk_showtime_id = ''S1'',
                    total_amount = 12, booking_date = 0, bk_status = Paid\<rparr>,
                    \<lparr>bk_ident = ''B2'', bk_user_id = ''U'', bk_showtime_id = ''S1'',
                    total_amount = 24, booking_date = 1000, bk_status = Pending\<rparr>],
       booking_seats := [\<lparr>bs_booking_id = ''B1'', bs_seat_id = ''A1'', bs_showtime_id = ''S1''\<rparr>,
                         \<lparr>bs_booking_id = ''B2'', bs_seat_id = ''A2'', bs_showtime_id = ''S1''\<rparr>,
                         \<lparr>bs_booking_id = ''B2'', bs_seat_id = ''A3'', bs_showtime_id = ''S1''\<rparr>],
       payments := [\<lparr>pay_booking_id = ''B2'', stripe_payment_intent_id = ''pi_2'',
                      pay_amount = 24, pay_status = PaymentPending, payment_date = None\<rparr>]\<rparr>"

text \<open>The gateway reports the payment of booking B2 as succeeded.\<close>

definition demo_success :: "instant \<Rightarrow> store \<Rightarrow> store \<times> event list \<times> webhook_response" where
  "demo_success now s = confirm_payment now ''pi_2'' ''B2'' ''U'' s"

text \<open>User U asks for a booking of seat A2 in showtime S1.\<close>

definition demo_body :: create_booking_body where
  "demo_body = \<lparr>showtimeId = ''S1'', seatIds = [''A2''], totalAmount = 12\<rparr>"

text \<open>The seat map of showtime S1 at instant 5000, in row and seat order.\<close>

definition demo_views :: "seat_view list" where
  "demo_views =
     [\<lparr>sv_seat = \<lparr>seat_ident = ''A1'', seat_theater_id = ''T1'', row_number = 1, seat_number = 1,
                   seat_kind = Regular, is_active = True\<rparr>,
       status = Booked, lockedBy = None, lockedUntil = None\<rparr>,
      \<lparr>sv_seat = \<lparr>seat_ident = ''A2'', seat_theater_id = ''T1'', row_number = 1, seat_number = 2,
                   seat_kind = Regular, is_active = True\<rparr>,
       status = Locked, lockedBy = Some ''U'', lockedUntil = Some 600000\<rparr>,
      \<lparr>sv_seat = \<lparr>seat_ident = ''A3'', seat_theater_id = ''T1'', row_number = 1, seat_number = 3,
                   seat_kind = Vip, is_active = True\<rparr>,
       status = Available, lockedBy = None, lockedUntil = None\<rparr>]"

text \<open>The one lock of the example store.\<close>

definition demo_lock :: seat_lock where
  "demo_lock = \<lparr>sl_seat_id = ''A2'', sl_showtime_id = ''S1'', sl_user_id = ''U'',
                 locked_until = 600000\<rparr>"

section \<open>Helper lemmas on the lock table\<close>

lemma foldl_delete_seat_user:
  "foldl (\<lambda>ls seatId. delete_seat_user seatId u ls) ls0 xs =
     filter (\<lambda>l. \<not> (sl_seat_id l \<in> set xs \<and> sl_user_id l = u)) ls0"
proof (induction xs arbitrary: ls0)
  case Nil
  then show ?case by simp
next
  case (Cons x xs)
  have "filter (\<lambda>l. \<not> (sl_seat_id l \<in> set xs \<and> sl_user_id l = u)) (delete_seat_user x u ls0)
        = filter (\<lambda>l. \<not> (sl_seat_id l \<in> set (x # xs) \<and> sl_user_id l = u)) ls0"
    unfolding delete_seat_user_def filter_filter
    by (rule filter_cong) auto
  with Cons.IH [of "delete_seat_user x u ls0"] show ?case by simp
qed

lemma find_lock_upsert:
  "find_lock a b (upsert r ls) =
     (if a = sl_seat_id r \<and> b = sl_showtime_id r then Some r else find_lock a b ls)"
  by (induction ls) (auto simp: find_lock_def)

lemma find_lock_foldl_upsert:
  "find_lock a b
     (foldl (\<lambda>ls x. upsert \<lparr>sl_seat_id = x, sl_showtime_id = st, sl_user_id = u,
                              locked_until = e\<rparr> ls) ls0 xs) =
     (if a \<in> set xs \<and> b = st
      then Some \<lparr>sl_seat_id = a, sl_showtime_id = st, sl_user_id = u, locked_until = e\<rparr>
      else find_lock a b ls0)"
proof (induction xs arbitrary: ls0)
  case Nil
  then show ?case by simp
next
  case (Cons x xs)
  show ?case
    by (simp add: Cons.IH find_lock_upsert)
qed

lemma set_upsert: "set (upsert r ls) \<subseteq> insert r (set ls)"
  by (induction ls) auto

lemma set_foldl_upsert:
  "set (foldl (\<lambda>ls x. upsert (mk x) ls) ls0 xs) \<subseteq> set ls0 \<union> mk ` set xs"
proof (induction xs arbitrary: ls0)
  case Nil
  then show ?case by simp
next
  case (Cons x xs)
  have "set (foldl (\<lambda>ls x. upsert (mk x) ls) (upsert (mk x) ls0) xs)
          \<subseteq> set (upsert (mk x) ls0) \<union> mk ` set xs"
    by (rule Cons.IH)
  also have "\<dots> \<subseteq> insert (mk x) (set ls0) \<union> mk ` set xs"
    using set_upsert [of "mk x" ls0] by blast
  finally show ?case by auto
qed

lemma filter_upsert_other:
  assumes "\<not> P r"
    and "\<And>l. sl_seat_id l = sl_seat_id r \<and> sl_showtime_id l = sl_showtime_id r \<Longrightarrow> \<not> P l"
  shows "filter P (upsert r ls) = filter P ls"
  using assms by (induction ls) auto

lemma filter_foldl_upsert_other:
  "filter (\<lambda>l. \<not> (sl_seat_id l \<in> set xs \<and> sl_showtime_id l = st))
     (foldl (\<lambda>ls x. upsert \<lparr>sl_seat_id = x, sl_showtime_id = st, sl_user_id = u,
                              locked_until = e\<rparr> ls) ls0 ys) =
   filter (\<lambda>l. \<not> (sl_seat_id l \<in> set xs \<and> sl_showtime_id l = st)) ls0"
  if "set ys \<subseteq> set xs"
  using that
proof (induction ys arbitrary: ls0)
  case Nil
  then show ?case by simp
next
  case (Cons y ys)
  have "filter (\<lambda>l. \<not> (sl_seat_id l \<in> set xs \<and> sl_showtime_id l = st))
          (upsert \<lparr>sl_seat_id = y, sl_showtime_id = st, sl_user_id = u, locked_until = e\<rparr> ls0)
        = filter (\<lambda>l. \<not> (sl_seat_id l \<in> set xs \<and> sl_showtime_id l = st)) ls0"
    using Cons.prems by (intro filter_upsert_other) auto
  with Cons show ?case by simp
qed

lemma set_map_key_upsert:
  "set (map lock_key (upsert r ls)) = insert (lock_key r) (set (map lock_key ls))"
  by (induction ls) (auto simp add: lock_key_def)

lemma distinct_upsert:
  "distinct (map lock_key ls) \<Longrightarrow> distinct (map lock_key (upsert r ls))"
proof (induction ls)
  case Nil
  then show ?case by simp
next
  case (Cons l ls)
  show ?case
  proof (cases "sl_seat_id l = sl_seat_id r \<and> sl_showtime_id l = sl_showtime_id r")
    case True
    then have "lock_key l = lock_key r" by (simp add: lock_key_def)
    with Cons.prems True show ?thesis by simp
  next
    case False
    then have "lock_key l \<noteq> lock_key r" by (auto simp add: lock_key_def)
    from Cons.prems have "distinct (map lock_key (upsert r ls))"
      by (intro Cons.IH) simp
    moreover from Cons.prems \<open>lock_key l \<noteq> lock_key r\<close>
    have "lock_key l \<notin> set (map lock_key (upsert r ls))"
      unfolding set_map_key_upsert by simp
    moreover from False have "upsert r (l # ls) = l # upsert r ls"
      by auto
    ultimately show ?thesis
      by simp
  qed
qed

lemma select_event:
  "ss_action d = Select \<Longrightarrow>
     snd (select_seats userId now d s) =
       [(RoomExceptSender (room_of (ss_showtimeId d)),
         SeatsLocked (ss_seatIds d) userId (now + 600000))]"
  by (simp add: select_seats_def lock_ttl_ms_def Let_def)

lemma select_locks:
  "ss_action d = Select \<Longrightarrow>
     seat_locks (fst (select_seats userId now d s)) =
       foldl (\<lambda>ls seatId.
                upsert \<lparr>sl_seat_id = seatId, sl_showtime_id = ss_showtimeId d,
                        sl_user_id = userId, locked_until = now + 600000\<rparr> ls)
             (seat_locks s) (ss_seatIds d)"
  by (simp add: select_seats_def lock_ttl_ms_def Let_def)

section \<open>Acquiring locks\<close>

text \<open>
  C8. Every lock row that a select request writes expires exactly ten minutes (600000 ms)
  after the instant of the request, and all seats of one request get the same expiry:
  each named seat's row for the showtime is the requester's with that expiry, every row
  of the table afterwards is an old row or carries that expiry, and the
  \<^verbatim>\<open>seats-locked\<close> event announces the same instant.
\<close>

theorem select_seats_expiry:
  "ss_action d = Select \<Longrightarrow>
     (\<forall>seatId\<in>set (ss_seatIds d).
        find_lock seatId (ss_showtimeId d) (seat_locks (fst (select_seats userId now d s))) =
          Some \<lparr>sl_seat_id = seatId, sl_showtime_id = ss_showtimeId d, sl_user_id = userId,
                locked_until = now + 600000\<rparr>) \<and>
     (\<forall>l\<in>set (seat_locks (fst (select_seats userId now d s))).
        l \<in> set (seat_locks s) \<or>
        (sl_seat_id l \<in> set (ss_seatIds d) \<and> locked_until l = now + 600000)) \<and>
     snd (select_seats userId now d s) =
       [(RoomExceptSender (room_of (ss_showtimeId d)),
         SeatsLocked (ss_seatIds d) userId (now + 600000))]"
proof -
  assume sel: "ss_action d = Select"
  let ?mk = "\<lambda>seatId. \<lparr>sl_seat_id = seatId, sl_showtime_id = ss_showtimeId d,
                          sl_user_id = userId, locked_until = now + 600000\<rparr>"
  have locks: "seat_locks (fst (select_seats userId now d s)) =
                 foldl (\<lambda>ls seatId. upsert (?mk seatId) ls) (seat_locks s) (ss_seatIds d)"
    using sel by (rule select_locks)
  have written: "\<forall>seatId\<in>set (ss_seatIds d).
        find_lock seatId (ss_showtimeId d) (seat_locks (fst (select_seats userId now d s))) =
          Some (?mk seatId)"
    unfolding locks by (simp add: find_lock_foldl_upsert)
  have "set (seat_locks (fst (select_seats userId now d s)))
          \<subseteq> set (seat_locks s) \<union> ?mk ` set (ss_seatIds d)"
    unfolding locks by (rule set_foldl_upsert)
  then have fresh: "\<forall>l\<in>set (seat_locks (fst (select_seats userId now d s))).
        l \<in> set (seat_locks s) \<or>
        (sl_seat_id l \<in> set (ss_seatIds d) \<and> locked_until l = now + 600000)"
    by auto
  from written fresh select_event [OF sel] show ?thesis by blast
qed

text \<open>
  User V selects A1, A2 and A3 at instant 5000: the rows expire at 605000.
\<close>

theorem select_seats_expiry_witness:
  "find_lock ''A1'' ''S1'' (seat_locks (fst (select_seats ''V'' 5000 demo_select demo_store))) =
     Some \<lparr>sl_seat_id = ''A1'', sl_showtime_id = ''S1'', sl_user_id = ''V'', locked_until = 605000\<rparr> \<and>
   find_lock ''A3'' ''S1'' (seat_locks (fst (select_seats ''V'' 5000 demo_select demo_store))) =
     Some \<lparr>sl_seat_id = ''A3'', sl_showtime_id = ''S1'', sl_user_id = ''V'', locked_until = 605000\<rparr> \<and>
   snd (select_seats ''V'' 5000 demo_select demo_store) =
     [(RoomExceptSender ''showtime-S1'', SeatsLocked [''A1'', ''A2'', ''A3''] ''V'' 605000)]"
  using select_seats_expiry [of demo_select "''V''" 5000 demo_store]
  by (simp add: demo_select_def room_of_def)

lemma select_seats_with_upsert: "select_seats_with upsert = select_seats"
  by (simp add: fun_eq_iff select_seats_with_def select_seats_def)













section \<open>Releasing locks\<close>

text \<open>
  C6, as stated, fails. User U deselects seat A1 in showtime S1: the lock of U on A1 in
  showtime S2 is deleted as well, so the table afterwards is not the one that deleting
  only the S1 lock would leave.
\<close>

theorem deselect_other_showtime_counterexample:
  "seat_locks (fst (select_seats ''U'' 5000 demo_deselect two_showtimes_store)) \<noteq>
     filter (\<lambda>l. \<not> (sl_seat_id l \<in> set (ss_seatIds demo_deselect) \<and>
                      sl_showtime_id l = ss_showtimeId demo_deselect \<and> sl_user_id l = ''U''))
            (seat_locks two_showtimes_store) \<and>
   seat_locks (fst (select_seats ''U'' 5000 demo_deselect two_showtimes_store)) =
     [\<lparr>sl_seat_id = ''A1'', sl_showtime_id = ''S3'', sl_user_id = ''W'', locked_until = 700000\<rparr>,
      \<lparr>sl_seat_id = ''A2'', sl_showtime_id = ''S1'', sl_user_id = ''U'', locked_until = 600000\<rparr>]"
  by (simp add: select_seats_def demo_deselect_def two_showtimes_store_def demo_store_def
      delete_seat_user_def)

text \<open>
  C6, amended. A deselect request deletes exactly the locks that the holder owns on the
  named seats, in whatever showtime (the delete filters on seat and holder only); the
  locks of other holders and the holder's locks on other seats stay, as does every other
  table. It emits \<^verbatim>\<open>seats-released\<close> to the rest of the room, a second release changes
  nothing more, and where the holder owns no lock on the named seats the store is left
  as it was.
\<close>

theorem deselect_release:
  "ss_action d = Deselect \<Longrightarrow>
     select_seats userId now d s =
       (s\<lparr>seat_locks :=
            filter (\<lambda>l. \<not> (sl_seat_id l \<in> set (ss_seatIds d) \<and> sl_user_id l = userId))
                   (seat_locks s)\<rparr>,
        [(RoomExceptSender (room_of (ss_showtimeId d)), SeatsReleased (ss_seatIds d))]) \<and>
     fst (select_seats userId now' d (fst (select_seats userId now d s))) =
       fst (select_seats userId now d s) \<and>
     (filter (\<lambda>l. sl_seat_id l \<in> set (ss_seatIds d) \<and> sl_user_id l = userId) (seat_locks s) = []
        \<longrightarrow> fst (select_seats userId now d s) = s)"
proof -
  assume des: "ss_action d = Deselect"
  have eq: "\<And>t s'. select_seats userId t d s' =
       (s'\<lparr>seat_locks :=
            filter (\<lambda>l. \<not> (sl_seat_id l \<in> set (ss_seatIds d) \<and> sl_user_id l = userId))
                   (seat_locks s')\<rparr>,
        [(RoomExceptSender (room_of (ss_showtimeId d)), SeatsReleased (ss_seatIds d))])"
    using des by (simp add: select_seats_def foldl_delete_seat_user)
  have idem: "fst (select_seats userId now' d (fst (select_seats userId now d s))) =
       fst (select_seats userId now d s)"
    by (simp add: eq)
  have none: "filter (\<lambda>l. sl_seat_id l \<in> set (ss_seatIds d) \<and> sl_user_id l = userId) (seat_locks s) = []
        \<longrightarrow> fst (select_seats userId now d s) = s"
  proof
    assume "filter (\<lambda>l. sl_seat_id l \<in> set (ss_seatIds d) \<and> sl_user_id l = userId) (seat_locks s) = []"
    then have "\<forall>l\<in>set (seat_locks s). \<not> (sl_seat_id l \<in> set (ss_seatIds d) \<and> sl_user_id l = userId)"
      by (simp add: filter_empty_conv)
    then have "filter (\<lambda>l. \<not> (sl_seat_id l \<in> set (ss_seatIds d) \<and> sl_user_id l = userId))
                 (seat_locks s) = seat_locks s"
      by (simp add: filter_id_conv)
    then show "fst (select_seats userId now d s) = s"
      by (simp add: eq)
  qed
  from eq [of now s] idem none show ?thesis by blast
qed

text \<open>
  User V owns no lock: the release leaves the store as it was and still emits the event.
\<close>

theorem deselect_release_witness:
  "select_seats ''V'' 5000 demo_deselect two_showtimes_store =
     (two_showtimes_store,
      [(RoomExceptSender ''showtime-S1'', SeatsReleased [''A1''])])"
  using deselect_release [of demo_deselect "''V''" 5000 two_showtimes_store 5000]
  by (simp add: demo_deselect_def two_showtimes_store_def demo_store_def room_of_def)

section \<open>The confirm-booking event\<close>

text \<open>
  C10. For every \<^verbatim>\<open>confirm-booking\<close> event, whatever booking id and seat ids it carries,
  the handler deletes the calling user's locks on those seats and broadcasts
  \<^verbatim>\<open>seats-booked\<close> with the seat ids and the booking id to the whole showtime room. It
  reads no booking: replacing the bookings, the seat links and the payments of the store
  by any others changes neither the locks left nor the event.
\<close>

theorem confirm_booking_unchecked:
  "confirm_booking userId d s =
     (s\<lparr>seat_locks :=
          filter (\<lambda>l. \<not> (sl_seat_id l \<in> set (cb_seatIds d) \<and> sl_user_id l = userId))
                 (seat_locks s)\<rparr>,
      [(WholeRoom (room_of (cb_showtimeId d)), SeatsBooked (cb_seatIds d) (cb_bookingId d))]) \<and>
   confirm_booking userId d (s\<lparr>bookings := bks, booking_seats := links, payments := ps\<rparr>) =
     (fst (confirm_booking userId d s)\<lparr>bookings := bks, booking_seats := links, payments := ps\<rparr>,
      snd (confirm_booking userId d s))"
  by (simp add: confirm_booking_def foldl_delete_seat_user)

text \<open>
  User U confirms seat A1 under a booking id that no booking has: the locks of U on A1
  go, and the room is told that the seat is booked.
\<close>

theorem confirm_booking_unchecked_witness:
  "confirm_booking ''U'' demo_confirm two_showtimes_store =
     (two_showtimes_store\<lparr>seat_locks :=
        [\<lparr>sl_seat_id = ''A1'', sl_showtime_id = ''S3'', sl_user_id = ''W'', locked_until = 700000\<rparr>,
         \<lparr>sl_seat_id = ''A2'', sl_showtime_id = ''S1'', sl_user_id = ''U'', locked_until = 600000\<rparr>]\<rparr>,
      [(WholeRoom ''showtime-S1'', SeatsBooked [''A1''] ''no-such-booking'')]) \<and>
   filter (\<lambda>b. bk_ident b = ''no-such-booking'') (bookings two_showtimes_store) = []"
  using confirm_booking_unchecked [of "''U''" demo_confirm two_showtimes_store "[]" "[]" "[]"]
  by (simp add: demo_confirm_def two_showtimes_store_def demo_store_def room_of_def)

section \<open>Payment outcomes\<close>

lemma webhook_payment_failed:
  "webhook f now (PaymentIntentPaymentFailed intentId) s =
     (s\<lparr>payments :=
          map (mark_failed intentId) (payments s)\<rparr>,
      [], Received)"
  unfolding webhook_def by (simp only: stripe_event.case)

lemma failed_marked:
  "\<forall>p\<in>set (map (mark_failed intentId) ps).
      stripe_payment_intent_id p = intentId \<longrightarrow> pay_status p = PaymentFailed"
proof (intro ballI impI)
  fix p
  assume "p \<in> set (map (mark_failed intentId) ps)"
    and k: "stripe_payment_intent_id p = intentId"
  then obtain x where px: "p = (if stripe_payment_intent_id x = intentId
                         then x\<lparr>pay_status := PaymentFailed\<rparr> else x)"
    by (auto simp only: set_map mark_failed_def)
  show "pay_status p = PaymentFailed"
  proof (cases "stripe_payment_intent_id x = intentId")
    case True
    with px have "p = x\<lparr>pay_status := PaymentFailed\<rparr>" by simp
    then show ?thesis by simp
  next
    case False
    with px have "p = x" by simp
    with k False show ?thesis by simp
  qed
qed

text \<open>
  C9. A failed payment marks the payment rows of the intent failed and nothing else: the
  bookings (so a pending booking stays pending), the seat links and the seat locks are
  as before, and no event is emitted.
\<close>

theorem payment_failed_frame:
  "webhook f now (PaymentIntentPaymentFailed intentId) s =
     (s\<lparr>payments :=
          map (mark_failed intentId) (payments s)\<rparr>,
      [], Received) \<and>
   bookings (fst (webhook f now (PaymentIntentPaymentFailed intentId) s)) = bookings s \<and>
   booking_seats (fst (webhook f now (PaymentIntentPaymentFailed intentId) s)) = booking_seats s \<and>
   seat_locks (fst (webhook f now (PaymentIntentPaymentFailed intentId) s)) = seat_locks s \<and>
   (\<forall>p\<in>set (payments (fst (webhook f now (PaymentIntentPaymentFailed intentId) s))).
      stripe_payment_intent_id p = intentId \<longrightarrow> pay_status p = PaymentFailed)"
proof -
  have pays: "payments (fst (webhook f now (PaymentIntentPaymentFailed intentId) s)) =
      map (mark_failed intentId) (payments s)"
    by (simp add: webhook_payment_failed)
  have frame: "bookings (fst (webhook f now (PaymentIntentPaymentFailed intentId) s)) = bookings s \<and>
   booking_seats (fst (webhook f now (PaymentIntentPaymentFailed intentId) s)) = booking_seats s \<and>
   seat_locks (fst (webhook f now (PaymentIntentPaymentFailed intentId) s)) = seat_locks s"
    by (simp add: webhook_payment_failed)
  have marked: "\<forall>p\<in>set (payments (fst (webhook f now (PaymentIntentPaymentFailed intentId) s))).
      stripe_payment_intent_id p = intentId \<longrightarrow> pay_status p = PaymentFailed"
    unfolding pays by (rule failed_marked)
  from webhook_payment_failed [of f now intentId s] frame marked show ?thesis by blast
qed

text \<open>
  The payment of booking B2 fails: its row is marked, B2 is still pending.
\<close>

theorem payment_failed_frame_witness:
  "webhook no_faults 200000 (PaymentIntentPaymentFailed ''pi_2'') payment_store =
     (payment_store\<lparr>payments :=
        [\<lparr>pay_booking_id = ''B2'', stripe_payment_intent_id = ''pi_2'',
          pay_amount = 24, pay_status = PaymentFailed, payment_date = None\<rparr>]\<rparr>,
      [], Received) \<and>
   map bk_status (bookings (fst (webhook no_faults 200000 (PaymentIntentPaymentFailed ''pi_2'') payment_store)))
     = [Paid, Pending]"
  using payment_failed_frame [of no_faults 200000 "''pi_2''" payment_store]
  by (simp add: payment_store_def demo_store_def mark_failed_def)

lemma confirm_payment_eq:
  "confirm_payment now intentId bookingId userId s =
     (if booking_links bookingId s = []
      then (s\<lparr>payments := map (mark_completed intentId now) (payments s),
              bookings := map (mark_paid bookingId) (bookings s)\<rparr>, [], Received)
      else (s\<lparr>payments := map (mark_completed intentId now) (payments s),
              bookings := map (mark_paid bookingId) (bookings s),
              seat_locks :=
                delete_seats_user (map bs_seat_id (booking_links bookingId s)) userId (seat_locks s)\<rparr>,
            [(WholeRoom (room_of (bs_showtime_id (hd (booking_links bookingId s)))),
              SeatsBooked (map bs_seat_id (booking_links bookingId s)) bookingId)],
            Received))"
proof (cases "filter (\<lambda>r. bs_booking_id r = bookingId) (booking_seats s)")
  case Nil
  then show ?thesis
    by (simp add: confirm_payment_def booking_links_def webhook_def no_faults_def Let_def)
next
  case (Cons r rs)
  then show ?thesis
    by (simp add: confirm_payment_def booking_links_def webhook_def no_faults_def Let_def)
qed

lemma cp_bookings:
  "bookings (fst (confirm_payment now intentId bookingId userId s)) =
     map (mark_paid bookingId) (bookings s)"
  by (simp add: confirm_payment_eq)

lemma cp_payments:
  "payments (fst (confirm_payment now intentId bookingId userId s)) =
     map (mark_completed intentId now) (payments s)"
  by (simp add: confirm_payment_eq)

lemma cp_booking_seats:
  "booking_seats (fst (confirm_payment now intentId bookingId userId s)) = booking_seats s"
  by (simp add: confirm_payment_eq)

lemma cp_links:
  "booking_links bookingId (fst (confirm_payment now intentId bookingId userId s)) =
     booking_links bookingId s"
  by (simp add: booking_links_def cp_booking_seats)

lemma cp_seat_locks:
  "seat_locks (fst (confirm_payment now intentId bookingId userId s)) =
     (if booking_links bookingId s = [] then seat_locks s
      else delete_seats_user (map bs_seat_id (booking_links bookingId s)) userId (seat_locks s))"
  by (simp add: confirm_payment_eq)

lemma cp_events:
  "fst (snd (confirm_payment now intentId bookingId userId s)) =
     (if booking_links bookingId s = [] then []
      else [(WholeRoom (room_of (bs_showtime_id (hd (booking_links bookingId s)))),
             SeatsBooked (map bs_seat_id (booking_links bookingId s)) bookingId)])"
  by (simp add: confirm_payment_eq)

lemma cp_response:
  "snd (snd (confirm_payment now intentId bookingId userId s)) = Received"
  by (simp add: confirm_payment_eq)

lemma mark_paid_idem: "mark_paid b (mark_paid b x) = mark_paid b x"
  by (simp add: mark_paid_def)

lemma mark_completed_status:
  "pay_status (mark_completed i t2 (mark_completed i t1 p)) = pay_status (mark_completed i t1 p)"
  by (simp add: mark_completed_def)

lemma delete_seats_user_idem:
  "delete_seats_user xs u (delete_seats_user xs u ls) = delete_seats_user xs u ls"
  by (simp add: delete_seats_user_def)

text \<open>
  C3, as stated, fails. The payment of booking B2 is confirmed at instant 120000, which
  makes B2 paid; the duplicate notification at 130000 emits \<^verbatim>\<open>seats-booked\<close> for the
  seats A2 and A3 a second time, and it is no no-op on the store either (the payment row
  gets the new payment date).
\<close>

theorem confirm_payment_twice_counterexample:
  "map bk_status (bookings (fst (demo_success 120000 payment_store))) = [Paid, Paid] \<and>
   fst (snd (demo_success 130000 (fst (demo_success 120000 payment_store)))) =
     [(WholeRoom ''showtime-S1'', SeatsBooked [''A2'', ''A3''] ''B2'')] \<and>
   fst (demo_success 130000 (fst (demo_success 120000 payment_store))) \<noteq>
     fst (demo_success 120000 payment_store)"
  by (simp add: demo_success_def confirm_payment_eq booking_links_def payment_store_def
      demo_store_def mark_paid_def mark_completed_def delete_seats_user_def room_of_def)

text \<open>
  C3, amended. A second confirmation of the same payment does not fail (the handler
  answers received) and leaves the bookings, so the paid status, the seat links, the seat
  locks and every payment status as the first confirmation left them; it emits the same
  \<^verbatim>\<open>seats-booked\<close> event once more.
\<close>

theorem confirm_payment_twice:
  "snd (snd (confirm_payment t2 i b u (fst (confirm_payment t1 i b u s)))) = Received \<and>
   bookings (fst (confirm_payment t2 i b u (fst (confirm_payment t1 i b u s)))) =
     bookings (fst (confirm_payment t1 i b u s)) \<and>
   booking_seats (fst (confirm_payment t2 i b u (fst (confirm_payment t1 i b u s)))) =
     booking_seats (fst (confirm_payment t1 i b u s)) \<and>
   seat_locks (fst (confirm_payment t2 i b u (fst (confirm_payment t1 i b u s)))) =
     seat_locks (fst (confirm_payment t1 i b u s)) \<and>
   map pay_status (payments (fst (confirm_payment t2 i b u (fst (confirm_payment t1 i b u s))))) =
     map pay_status (payments (fst (confirm_payment t1 i b u s))) \<and>
   fst (snd (confirm_payment t2 i b u (fst (confirm_payment t1 i b u s)))) =
     fst (snd (confirm_payment t1 i b u s))"
  by (simp add: cp_response cp_bookings cp_booking_seats cp_seat_locks cp_payments cp_events
      cp_links mark_paid_idem mark_completed_status delete_seats_user_idem)

text \<open>
  The duplicate notification for booking B2: the event is repeated, B2 stays paid, no
  lock comes back.
\<close>

theorem confirm_payment_twice_witness:
  "fst (snd (demo_success 130000 (fst (demo_success 120000 payment_store)))) =
     [(WholeRoom ''showtime-S1'', SeatsBooked [''A2'', ''A3''] ''B2'')] \<and>
   map bk_status (bookings (fst (demo_success 130000 (fst (demo_success 120000 payment_store))))) =
     [Paid, Paid] \<and>
   seat_locks (fst (demo_success 130000 (fst (demo_success 120000 payment_store)))) = []"
  using confirm_payment_twice [of 130000 "''pi_2''" "''B2''" "''U''" 120000 payment_store]
  by (simp add: demo_success_def confirm_payment_eq booking_links_def payment_store_def
      demo_store_def mark_paid_def mark_completed_def delete_seats_user_def room_of_def)

section \<open>Creating a booking\<close>

lemma filter_fresh:
  "newId \<notin> bk_ident ` set bks \<Longrightarrow> filter (\<lambda>x. bk_ident x \<noteq> newId) bks = bks"
  by (induction bks) auto

text \<open>
  A request that names a seat for which the user has no lock row in the showtime is
  refused and stores nothing, where the lock table has one row for each seat and showtime:
  the rows found are then fewer than the seats asked for.
\<close>

lemma own_locks_short:
  assumes uniq: "distinct (map lock_key ls)"
    and x: "x \<in> set ids"
    and miss: "\<forall>l\<in>set ls. \<not> (sl_seat_id l = x \<and> sl_showtime_id l = st \<and> sl_user_id l = u)"
  shows "length (filter (\<lambda>l. sl_showtime_id l = st \<and> sl_user_id l = u \<and>
                             sl_seat_id l \<in> set ids) ls) < length ids"
proof -
  let ?F = "filter (\<lambda>l. sl_showtime_id l = st \<and> sl_user_id l = u \<and> sl_seat_id l \<in> set ids) ls"
  from uniq have "distinct (map lock_key ?F)"
    by (rule distinct_map_filter)
  moreover have "map lock_key ?F = map (\<lambda>a. (a, st)) (map sl_seat_id ?F)"
    by (simp add: lock_key_def)
  ultimately have d: "distinct (map sl_seat_id ?F)"
    by (simp add: distinct_map del: map_map)
  have "set (map sl_seat_id ?F) \<subseteq> set ids - {x}"
    using miss by auto
  then have "card (set (map sl_seat_id ?F)) \<le> card (set ids - {x})"
    by (intro card_mono) simp_all
  also from x have "\<dots> < card (set ids)"
    by (intro card_Diff1_less) simp_all
  also have "\<dots> \<le> length ids"
    by (rule card_length)
  finally have "card (set (map sl_seat_id ?F)) < length ids" .
  with d show ?thesis
    by (simp add: distinct_card del: set_map)
qed

lemma create_booking_not_locked:
  assumes uniq: "distinct (map lock_key (seat_locks s))"
    and x: "x \<in> set (seatIds b)"
    and miss: "\<forall>l\<in>set (seat_locks s).
                 \<not> (sl_seat_id l = x \<and> sl_showtime_id l = showtimeId b \<and> sl_user_id l = userId)"
  shows "fst (create_booking f newId now userId b s) = s \<and>
         snd (create_booking f newId now userId b s) \<in>
           {Rejected 400 ''Validation error'', Rejected 404 ''Showtime not found'',
            Thrown LocksSelect,
            Rejected 400 ''Some seats are not locked by you or unavailable''}"
proof -
  from own_locks_short [OF uniq x miss]
  have "length (filter (\<lambda>l. sl_showtime_id l = showtimeId b \<and> sl_user_id l = userId \<and>
                             sl_seat_id l \<in> set (seatIds b)) (seat_locks s))
          \<noteq> length (seatIds b)"
    by simp
  then show ?thesis
    by (simp add: create_booking_def Let_def)
qed

text \<open>
  C2 at an input where the handler misses it. The only lock of user U on seat A2 ran out
  at instant 600000 and has not been swept yet; the request of U at instant 630000 is
  accepted all the same: a pending booking and its seat link are stored.
\<close>

theorem create_booking_expired_lock:
  "find_lock ''A2'' ''S1'' (seat_locks demo_store) =
     Some \<lparr>sl_seat_id = ''A2'', sl_showtime_id = ''S1'', sl_user_id = ''U'',
           locked_until = 600000\<rparr> \<and>
   (600000 :: int) < 630000 \<and>
   create_booking no_faults ''B9'' 630000 ''U'' demo_body demo_store =
     (demo_store\<lparr>
        bookings := bookings demo_store @
          [\<lparr>bk_ident = ''B9'', bk_user_id = ''U'', bk_showtime_id = ''S1'',
            total_amount = 12, booking_date = 630000, bk_status = Pending\<rparr>],
        booking_seats := booking_seats demo_store @
          [\<lparr>bs_booking_id = ''B9'', bs_seat_id = ''A2'', bs_showtime_id = ''S1''\<rparr>]\<rparr>,
      Created \<lparr>bk_ident = ''B9'', bk_user_id = ''U'', bk_showtime_id = ''S1'',
               total_amount = 12, booking_date = 630000, bk_status = Pending\<rparr>)"
  by (simp add: create_booking_def createBookingSchema_def demo_body_def demo_store_def
      no_faults_def taken_def find_lock_def Let_def)

lemma filter_fresh_eq:
  "newId \<notin> bk_ident ` set bks \<Longrightarrow> filter (\<lambda>x. bk_ident x = newId) bks = []"
  by (induction bks) auto

lemma create_booking_checked:
  assumes "passes_checks userId b s"
    and "\<not> f ShowtimeSelect" "\<not> f LocksSelect" "\<not> f BookedSelect" "\<not> f BookingInsert"
    and fresh: "newId \<notin> bk_ident ` set (bookings s)"
  shows "create_booking f newId now userId b s =
     (if f BookingSeatsInsert
      then (if f BookingDelete then s\<lparr>bookings := bookings s @ [new_booking newId now userId b]\<rparr>
            else s,
            Thrown BookingSeatsInsert)
      else (s\<lparr>bookings := bookings s @ [new_booking newId now userId b],
              booking_seats := booking_seats s @ new_links newId b\<rparr>,
            if f FullBookingSelect then Thrown FullBookingSelect
            else Created (new_booking newId now userId b)))"
  using assms
  by (simp add: create_booking_def passes_checks_def new_booking_def new_links_def Let_def
      filter_fresh filter_fresh_eq)

lemma create_booking_stores:
  assumes fresh: "newId \<notin> bk_ident ` set (bookings s)"
  shows "(\<not> f BookingDelete \<longrightarrow>
      fst (create_booking f newId now userId b s) = s \<or>
      fst (create_booking f newId now userId b s) =
        s\<lparr>bookings := bookings s @ [new_booking newId now userId b],
          booking_seats := booking_seats s @ new_links newId b\<rparr> \<and>
      new_links newId b \<noteq> []) \<and>
    (snd (create_booking f newId now userId b s) = Created (new_booking newId now userId b) \<longrightarrow>
      fst (create_booking f newId now userId b s) =
        s\<lparr>bookings := bookings s @ [new_booking newId now userId b],
          booking_seats := booking_seats s @ new_links newId b\<rparr>)"
  using fresh
  by (simp add: create_booking_def new_booking_def new_links_def Let_def filter_fresh
      createBookingSchema_def Suc_le_eq)

text \<open>
  C4, as stated, fails. For the request of user U for seat A2 the insert of the seat
  links fails and the compensating delete, whose result the handler does not read, fails
  too: the request fails and the store keeps the pending booking B9 with no seat link.
\<close>

theorem create_booking_rollback_counterexample:
  "create_booking (fails_in [BookingSeatsInsert, BookingDelete]) ''B9'' 5000 ''U''
                  demo_body demo_store =
     (demo_store\<lparr>bookings := bookings demo_store @
        [\<lparr>bk_ident = ''B9'', bk_user_id = ''U'', bk_showtime_id = ''S1'',
          total_amount = 12, booking_date = 5000, bk_status = Pending\<rparr>]\<rparr>,
      Thrown BookingSeatsInsert) \<and>
   filter (\<lambda>r. bs_booking_id r = ''B9'')
     (booking_seats (fst (create_booking (fails_in [BookingSeatsInsert, BookingDelete])
                            ''B9'' 5000 ''U'' demo_body demo_store))) = []"
  by (simp add: create_booking_def createBookingSchema_def demo_body_def demo_store_def
      fails_in_def taken_def Let_def)

text \<open>
  C4, amended. Where the new id is not yet in use and the request passes the checks of
  the handler with no query and no booking insert failing: if the insert of the seat
  links fails and the compensating delete is applied, the request fails and the store is
  as it was before the request; if the insert of the seat links succeeds, the store holds
  the new pending booking together with one link for each requested seat, and the answer
  is the created booking unless the final read fails. After every run in which the
  compensating delete does not fail, whatever else fails, the store is either unchanged
  or holds the new pending booking with all its links, of which there is at least one;
  and a run that answers with the created booking has stored both.
\<close>

theorem create_booking_rollback:
  assumes fresh: "newId \<notin> bk_ident ` set (bookings s)"
  shows "(passes_checks userId b s \<and> \<not> f ShowtimeSelect \<and> \<not> f LocksSelect \<and>
          \<not> f BookedSelect \<and> \<not> f BookingInsert \<longrightarrow>
            (f BookingSeatsInsert \<and> \<not> f BookingDelete \<longrightarrow>
               create_booking f newId now userId b s = (s, Thrown BookingSeatsInsert)) \<and>
            (\<not> f BookingSeatsInsert \<longrightarrow>
               create_booking f newId now userId b s =
                 (s\<lparr>bookings := bookings s @ [new_booking newId now userId b],
                    booking_seats := booking_seats s @ new_links newId b\<rparr>,
                  if f FullBookingSelect then Thrown FullBookingSelect
                  else Created (new_booking newId now userId b)))) \<and>
    (\<not> f BookingDelete \<longrightarrow>
       fst (create_booking f newId now userId b s) = s \<or>
       fst (create_booking f newId now userId b s) =
         s\<lparr>bookings := bookings s @ [new_booking newId now userId b],
           booking_seats := booking_seats s @ new_links newId b\<rparr> \<and>
       new_links newId b \<noteq> []) \<and>
    (snd (create_booking f newId now userId b s) = Created (new_booking newId now userId b) \<longrightarrow>
       fst (create_booking f newId now userId b s) =
         s\<lparr>bookings := bookings s @ [new_booking newId now userId b],
           booking_seats := booking_seats s @ new_links newId b\<rparr>)"
proof -
  have run: "passes_checks userId b s \<and> \<not> f ShowtimeSelect \<and> \<not> f LocksSelect \<and>
          \<not> f BookedSelect \<and> \<not> f BookingInsert \<longrightarrow>
            (f BookingSeatsInsert \<and> \<not> f BookingDelete \<longrightarrow>
               create_booking f newId now userId b s = (s, Thrown BookingSeatsInsert)) \<and>
            (\<not> f BookingSeatsInsert \<longrightarrow>
               create_booking f newId now userId b s =
                 (s\<lparr>bookings := bookings s @ [new_booking newId now userId b],
                    booking_seats := booking_seats s @ new_links newId b\<rparr>,
                  if f FullBookingSelect then Thrown FullBookingSelect
                  else Created (new_booking newId now userId b)))"
  proof (intro impI, elim conjE)
    assume "passes_checks userId b s" "\<not> f ShowtimeSelect" "\<not> f LocksSelect"
      "\<not> f BookedSelect" "\<not> f BookingInsert"
    from create_booking_checked [OF this fresh, of now]
    show "(f BookingSeatsInsert \<and> \<not> f BookingDelete \<longrightarrow>
               create_booking f newId now userId b s = (s, Thrown BookingSeatsInsert)) \<and>
            (\<not> f BookingSeatsInsert \<longrightarrow>
               create_booking f newId now userId b s =
                 (s\<lparr>bookings := bookings s @ [new_booking newId now userId b],
                    booking_seats := booking_seats s @ new_links newId b\<rparr>,
                  if f FullBookingSelect then Thrown FullBookingSelect
                  else Created (new_booking newId now userId b)))"
      by simp
  qed
  from run create_booking_stores [OF fresh, of f now userId b] show ?thesis
    by blast
qed

text \<open>
  The request of user U for seat A2 at instant 5000, the lock still running. With no
  failing call the pending booking B9 and its link are stored; with a failing insert of
  the seat links (and the delete applied) the request fails and the store is as before.
\<close>

theorem create_booking_rollback_witness:
  "create_booking no_faults ''B9'' 5000 ''U'' demo_body demo_store =
     (demo_store\<lparr>
        bookings := bookings demo_store @
          [\<lparr>bk_ident = ''B9'', bk_user_id = ''U'', bk_showtime_id = ''S1'',
            total_amount = 12, booking_date = 5000, bk_status = Pending\<rparr>],
        booking_seats := booking_seats demo_store @
          [\<lparr>bs_booking_id = ''B9'', bs_seat_id = ''A2'', bs_showtime_id = ''S1''\<rparr>]\<rparr>,
      Created \<lparr>bk_ident = ''B9'', bk_user_id = ''U'', bk_showtime_id = ''S1'',
               total_amount = 12, booking_date = 5000, bk_status = Pending\<rparr>) \<and>
   create_booking (fails_in [BookingSeatsInsert]) ''B9'' 5000 ''U'' demo_body demo_store =
     (demo_store, Thrown BookingSeatsInsert)"
proof -
  have fresh: "''B9'' \<notin> bk_ident ` set (bookings demo_store)"
    by (simp add: demo_store_def)
  have checks: "passes_checks ''U'' demo_body demo_store"
    by (simp add: passes_checks_def createBookingSchema_def demo_body_def demo_store_def
        taken_def)
  from create_booking_rollback [OF fresh, of "''U''" demo_body no_faults 5000] checks
  have ok: "create_booking no_faults ''B9'' 5000 ''U'' demo_body demo_store =
      (demo_store\<lparr>bookings := bookings demo_store @ [new_booking ''B9'' 5000 ''U'' demo_body],
         booking_seats := booking_seats demo_store @ new_links ''B9'' demo_body\<rparr>,
       Created (new_booking ''B9'' 5000 ''U'' demo_body))"
    by (simp add: no_faults_def)
  from create_booking_rollback
    [OF fresh, of "''U''" demo_body "fails_in [BookingSeatsInsert]" 5000] checks
  have undone: "create_booking (fails_in [BookingSeatsInsert]) ''B9'' 5000 ''U''
                demo_body demo_store = (demo_store, Thrown BookingSeatsInsert)"
    by (simp add: fails_in_def)
  from ok undone show ?thesis
    by (simp add: new_booking_def new_links_def demo_body_def)
qed

section \<open>The seat map query\<close>

lemma taken_iff:
  "taken bks r \<longleftrightarrow>
     (\<exists>bk\<in>set bks. bk_ident bk = bs_booking_id r \<and>
                     (bk_status bk = Confirmed \<or> bk_status bk = Paid))"
  by (auto simp add: taken_def filter_empty_conv)

lemma seat_map_ok:
  "get_showtime_seats f now sid s = SeatMap t views \<Longrightarrow>
     filter (\<lambda>t. st_ident t = sid) (showtimes s) = [t] \<and>
     views =
       map (seatStatus
              (filter (\<lambda>r. bs_showtime_id r = sid \<and> taken (bookings s) r) (booking_seats s))
              (filter (\<lambda>l. sl_showtime_id l = sid \<and> locked_until l > now) (seat_locks s)))
           (sort_key (\<lambda>x. (row_number x, seat_number x))
              (filter (\<lambda>x. seat_theater_id x = st_theater_id t) (seats s)))"
  by (simp add: get_showtime_seats_def Let_def split: if_splits list.splits)

lemma seatStatus_seat: "sv_seat (seatStatus B L x) = x"
  by (simp add: seatStatus_def Let_def)

lemma seatStatus_booked:
  "status (seatStatus B L x) = Booked \<longleftrightarrow> (\<exists>r\<in>set B. bs_seat_id r = seat_ident x)"
  by (simp add: seatStatus_def Let_def list_ex_iff)

lemma seatStatus_locked:
  "status (seatStatus B L x) = Locked \<longleftrightarrow>
     \<not> (\<exists>r\<in>set B. bs_seat_id r = seat_ident x) \<and> (\<exists>l\<in>set L. sl_seat_id l = seat_ident x)"
  by (auto simp add: seatStatus_def Let_def list_ex_iff find_None_iff)

lemma seatStatus_available:
  "status (seatStatus B L x) = Available \<longleftrightarrow>
     \<not> (\<exists>r\<in>set B. bs_seat_id r = seat_ident x) \<and> \<not> (\<exists>l\<in>set L. sl_seat_id l = seat_ident x)"
  by (auto simp add: seatStatus_def Let_def list_ex_iff find_None_iff)

lemma seatStatus_holder:
  assumes "\<exists>l\<in>set L. sl_seat_id l = seat_ident x"
  shows "\<exists>l\<in>set L. sl_seat_id l = seat_ident x \<and>
           lockedUntil (seatStatus B L x) = Some (locked_until l) \<and>
           lockedBy (seatStatus B L x) = or_null (sl_user_id l)"
proof -
  from assms obtain l where l: "find (\<lambda>ls. sl_seat_id ls = seat_ident x) L = Some l"
    by (cases "find (\<lambda>ls. sl_seat_id ls = seat_ident x) L") (auto simp add: find_None_iff)
  then have "l \<in> set L" and "sl_seat_id l = seat_ident x"
    by (auto simp add: find_Some_iff)
  moreover from l have "lockedUntil (seatStatus B L x) = Some (locked_until l)"
    and "lockedBy (seatStatus B L x) = or_null (sl_user_id l)"
    by (simp_all add: seatStatus_def Let_def)
  ultimately show ?thesis by blast
qed

lemma seat_map_views:
  assumes ok: "get_showtime_seats f now sid s = SeatMap t views"
  shows "filter (\<lambda>t. st_ident t = sid) (showtimes s) = [t] \<and>
    map sv_seat views =
      sort_key (\<lambda>x. (row_number x, seat_number x))
        (filter (\<lambda>x. seat_theater_id x = st_theater_id t) (seats s)) \<and>
    set (map sv_seat views) = {x \<in> set (seats s). seat_theater_id x = st_theater_id t} \<and>
    (\<forall>v\<in>set views.
       (status v = Booked \<longleftrightarrow>
          (\<exists>r\<in>set (booking_seats s).
             bs_seat_id r = seat_ident (sv_seat v) \<and> bs_showtime_id r = sid \<and>
             (\<exists>bk\<in>set (bookings s).
                bk_ident bk = bs_booking_id r \<and>
                (bk_status bk = Confirmed \<or> bk_status bk = Paid)))) \<and>
       (status v = Locked \<longleftrightarrow>
          status v \<noteq> Booked \<and>
          (\<exists>l\<in>set (seat_locks s).
             sl_seat_id l = seat_ident (sv_seat v) \<and> sl_showtime_id l = sid \<and>
             now < locked_until l)) \<and>
       (status v = Available \<longleftrightarrow> status v \<noteq> Booked \<and> status v \<noteq> Locked) \<and>
       (status v = Locked \<longrightarrow>
          (\<exists>l\<in>set (seat_locks s).
             sl_seat_id l = seat_ident (sv_seat v) \<and> sl_showtime_id l = sid \<and>
             now < locked_until l \<and>
             lockedUntil v = Some (locked_until l) \<and>
             (sl_user_id l \<noteq> [] \<longrightarrow> lockedBy v = Some (sl_user_id l)))))"
proof -
  let ?B = "filter (\<lambda>r. bs_showtime_id r = sid \<and> taken (bookings s) r) (booking_seats s)"
  let ?L = "filter (\<lambda>l. sl_showtime_id l = sid \<and> locked_until l > now) (seat_locks s)"
  let ?S = "sort_key (\<lambda>x. (row_number x, seat_number x))
              (filter (\<lambda>x. seat_theater_id x = st_theater_id t) (seats s))"
  from seat_map_ok [OF ok]
  have st: "filter (\<lambda>t. st_ident t = sid) (showtimes s) = [t]"
    and views: "views = map (seatStatus ?B ?L) ?S"
    by simp_all
  have seats_eq: "map sv_seat views = ?S"
    unfolding views by (simp add: seatStatus_seat [abs_def] comp_def)
  have seats_set: "set (map sv_seat views) =
      {x \<in> set (seats s). seat_theater_id x = st_theater_id t}"
    unfolding seats_eq by auto
  have each: "(status v = Booked \<longleftrightarrow>
          (\<exists>r\<in>set (booking_seats s).
             bs_seat_id r = seat_ident (sv_seat v) \<and> bs_showtime_id r = sid \<and>
             (\<exists>bk\<in>set (bookings s).
                bk_ident bk = bs_booking_id r \<and>
                (bk_status bk = Confirmed \<or> bk_status bk = Paid)))) \<and>
       (status v = Locked \<longleftrightarrow>
          status v \<noteq> Booked \<and>
          (\<exists>l\<in>set (seat_locks s).
             sl_seat_id l = seat_ident (sv_seat v) \<and> sl_showtime_id l = sid \<and>
             now < locked_until l)) \<and>
       (status v = Available \<longleftrightarrow> status v \<noteq> Booked \<and> status v \<noteq> Locked) \<and>
       (status v = Locked \<longrightarrow>
          (\<exists>l\<in>set (seat_locks s).
             sl_seat_id l = seat_ident (sv_seat v) \<and> sl_showtime_id l = sid \<and>
             now < locked_until l \<and>
             lockedUntil v = Some (locked_until l) \<and>
             (sl_user_id l \<noteq> [] \<longrightarrow> lockedBy v = Some (sl_user_id l))))"
    if v: "v \<in> set views" for v
  proof -
    from v obtain x where vx: "v = seatStatus ?B ?L x"
      unfolding views by auto
    have seat: "sv_seat v = x"
      by (simp add: vx seatStatus_seat)
    have booked: "status v = Booked \<longleftrightarrow>
          (\<exists>r\<in>set (booking_seats s).
             bs_seat_id r = seat_ident (sv_seat v) \<and> bs_showtime_id r = sid \<and>
             (\<exists>bk\<in>set (bookings s).
                bk_ident bk = bs_booking_id r \<and>
                (bk_status bk = Confirmed \<or> bk_status bk = Paid)))"
      unfolding seat unfolding vx seatStatus_booked by (auto simp add: taken_iff)
    have locked: "status v = Locked \<longleftrightarrow>
          status v \<noteq> Booked \<and>
          (\<exists>l\<in>set (seat_locks s).
             sl_seat_id l = seat_ident (sv_seat v) \<and> sl_showtime_id l = sid \<and>
             now < locked_until l)"
      unfolding seat unfolding vx seatStatus_booked seatStatus_locked by auto
    have avail: "status v = Available \<longleftrightarrow> status v \<noteq> Booked \<and> status v \<noteq> Locked"
      by (cases "status v") simp_all
    have holder: "\<exists>l\<in>set (seat_locks s).
             sl_seat_id l = seat_ident (sv_seat v) \<and> sl_showtime_id l = sid \<and>
             now < locked_until l \<and>
             lockedUntil v = Some (locked_until l) \<and>
             (sl_user_id l \<noteq> [] \<longrightarrow> lockedBy v = Some (sl_user_id l))"
      if "status v = Locked"
    proof -
      from that have "\<exists>l\<in>set ?L. sl_seat_id l = seat_ident x"
        unfolding vx seatStatus_locked by blast
      from seatStatus_holder [OF this, of ?B]
      obtain l where "l \<in> set ?L" "sl_seat_id l = seat_ident x"
        "lockedUntil v = Some (locked_until l)" "lockedBy v = or_null (sl_user_id l)"
        unfolding vx by blast
      then show ?thesis
        unfolding seat by (auto simp add: or_null_def)
    qed
    from booked locked avail holder show ?thesis by blast
  qed
  from st seats_eq seats_set each show ?thesis by blast
qed

lemma seat_map_answers:
  "filter (\<lambda>t. st_ident t = sid) (showtimes s) = [t] \<Longrightarrow>
     \<exists>views. get_showtime_seats no_faults now sid s = SeatMap t views"
  by (simp add: get_showtime_seats_def no_faults_def Let_def)

text \<open>
  C7. The seat-map query for a showtime, where the store holds one showtime of that id
  and no query fails, answers with a seat map. Every seat map it answers with is for that
  showtime and lists every seat of its theater (in row and seat order), each with its
  status: booked exactly when a seat link for that seat and showtime belongs to a
  confirmed or paid booking; locked exactly when it is not booked and a lock on that seat
  and showtime expires after the instant of the query; available otherwise. A locked seat
  comes with the expiry and the holder of such an unexpired lock (the holder where its id
  is not the empty string, which \<^verbatim>\<open>|| null\<close> would drop).
\<close>

theorem seat_map_status:
  "(filter (\<lambda>t. st_ident t = sid) (showtimes s) = [t] \<longrightarrow>
      (\<exists>views. get_showtime_seats no_faults now sid s = SeatMap t views)) \<and>
   (get_showtime_seats f now sid s = SeatMap t views \<longrightarrow>
    filter (\<lambda>t. st_ident t = sid) (showtimes s) = [t] \<and>
      map sv_seat views =
        sort_key (\<lambda>x. (row_number x, seat_number x))
          (filter (\<lambda>x. seat_theater_id x = st_theater_id t) (seats s)) \<and>
      set (map sv_seat views) = {x \<in> set (seats s). seat_theater_id x = st_theater_id t} \<and>
      (\<forall>v\<in>set views.
         (status v = Booked \<longleftrightarrow>
            (\<exists>r\<in>set (booking_seats s).
               bs_seat_id r = seat_ident (sv_seat v) \<and> bs_showtime_id r = sid \<and>
               (\<exists>bk\<in>set (bookings s).
                  bk_ident bk = bs_booking_id r \<and>
                  (bk_status bk = Confirmed \<or> bk_status bk = Paid)))) \<and>
         (status v = Locked \<longleftrightarrow>
            status v \<noteq> Booked \<and>
            (\<exists>l\<in>set (seat_locks s).
               sl_seat_id l = seat_ident (sv_seat v) \<and> sl_showtime_id l = sid \<and>
               now < locked_until l)) \<and>
         (status v = Available \<longleftrightarrow> status v \<noteq> Booked \<and> status v \<noteq> Locked) \<and>
         (status v = Locked \<longrightarrow>
            (\<exists>l\<in>set (seat_locks s).
               sl_seat_id l = seat_ident (sv_seat v) \<and> sl_showtime_id l = sid \<and>
               now < locked_until l \<and>
               lockedUntil v = Some (locked_until l) \<and>
               (sl_user_id l \<noteq> [] \<longrightarrow> lockedBy v = Some (sl_user_id l))))))"
  using seat_map_answers [of sid s t now] seat_map_views [of f now sid s t views]
  by blast

text \<open>
  Showtime S1 at instant 5000: A1 is booked, A2 is locked by U until 600000, A3 is
  available.
\<close>

theorem seat_map_status_witness:
  "get_showtime_seats no_faults 5000 ''S1'' demo_store =
     SeatMap \<lparr>st_ident = ''S1'', st_theater_id = ''T1''\<rparr> demo_views \<and>
   map (seat_ident \<circ> sv_seat) demo_views = [''A1'', ''A2'', ''A3''] \<and>
   map status demo_views = [Booked, Locked, Available]"
proof -
  have run: "get_showtime_seats no_faults 5000 ''S1'' demo_store =
     SeatMap \<lparr>st_ident = ''S1'', st_theater_id = ''T1''\<rparr> demo_views"
    by (simp add: get_showtime_seats_def no_faults_def demo_store_def demo_views_def
        seatStatus_def taken_def or_null_def Let_def)
  from seat_map_status
    [of "''S1''" demo_store "\<lparr>st_ident = ''S1'', st_theater_id = ''T1''\<rparr>" 5000 no_faults demo_views]
    run
  show ?thesis
    by (simp add: demo_views_def)
qed

section \<open>The sweeper\<close>

lemma map_of_push_seat:
  "map_of (push_seat g k v) =
     (map_of g)(k \<mapsto> (case map_of g k of None \<Rightarrow> [v] | Some vs \<Rightarrow> vs @ [v]))"
  by (induction g k v rule: push_seat.induct) (auto simp add: fun_eq_iff)

lemma keys_push_seat:
  "map fst (push_seat g k v) = (if k \<in> set (map fst g) then map fst g else map fst g @ [k])"
  by (induction g k v rule: push_seat.induct) auto

lemma distinct_push_seat:
  "distinct (map fst g) \<Longrightarrow> distinct (map fst (push_seat g k v))"
  by (simp add: keys_push_seat)

lemma group_fold:
  "distinct (map fst g) \<Longrightarrow>
     distinct (map fst (foldl (\<lambda>g l. push_seat g (sl_showtime_id l) (sl_seat_id l)) g xs)) \<and>
     set (map fst (foldl (\<lambda>g l. push_seat g (sl_showtime_id l) (sl_seat_id l)) g xs)) =
       set (map fst g) \<union> sl_showtime_id ` set xs \<and>
     (\<forall>k. map_of (foldl (\<lambda>g l. push_seat g (sl_showtime_id l) (sl_seat_id l)) g xs) k =
          (if seats_of k xs = [] then map_of g k
           else Some ((case map_of g k of None \<Rightarrow> [] | Some vs \<Rightarrow> vs) @ seats_of k xs)))"
proof (induction xs arbitrary: g)
  case Nil
  then show ?case by (simp add: seats_of_def)
next
  case (Cons x xs)
  let ?g = "push_seat g (sl_showtime_id x) (sl_seat_id x)"
  have d: "distinct (map fst ?g)"
    using Cons.prems by (rule distinct_push_seat)
  note IH = Cons.IH [OF d]
  have keys: "set (map fst ?g) = insert (sl_showtime_id x) (set (map fst g))"
    by (auto simp add: keys_push_seat)
  have look: "map_of (foldl (\<lambda>g l. push_seat g (sl_showtime_id l) (sl_seat_id l)) ?g xs) k =
          (if seats_of k (x # xs) = [] then map_of g k
           else Some ((case map_of g k of None \<Rightarrow> [] | Some vs \<Rightarrow> vs) @ seats_of k (x # xs)))"
    for k
  proof -
    from IH have "map_of (foldl (\<lambda>g l. push_seat g (sl_showtime_id l) (sl_seat_id l)) ?g xs) k =
          (if seats_of k xs = [] then map_of ?g k
           else Some ((case map_of ?g k of None \<Rightarrow> [] | Some vs \<Rightarrow> vs) @ seats_of k xs))"
      by blast
    then show ?thesis
      by (cases "map_of g k") (simp_all add: map_of_push_seat seats_of_def)
  qed
  from IH keys look show ?case by auto
qed

lemma group_by_showtime_keys:
  "distinct (map fst (group_by_showtime ls)) \<and>
   set (map fst (group_by_showtime ls)) = sl_showtime_id ` set ls"
  using group_fold [of "[]" ls] by (simp add: group_by_showtime_def)

lemma group_by_showtime_seats:
  "group_by_showtime ls = map (\<lambda>k. (k, seats_of k ls)) (map fst (group_by_showtime ls))"
proof -
  have "(k, vs) \<in> set (group_by_showtime ls) \<Longrightarrow> vs = seats_of k ls" for k vs
  proof -
    assume "(k, vs) \<in> set (group_by_showtime ls)"
    with group_by_showtime_keys [of ls] have m: "map_of (group_by_showtime ls) k = Some vs"
      by simp
    from group_fold [of "[]" ls]
    have "map_of (group_by_showtime ls) k =
            (if seats_of k ls = [] then None else Some (seats_of k ls))"
      by (simp add: group_by_showtime_def)
    with m show "vs = seats_of k ls"
      by (simp split: if_splits)
  qed
  then have "\<forall>p\<in>set (group_by_showtime ls). p = (fst p, seats_of (fst p) ls)"
    by auto
  then show ?thesis
    by (simp add: map_idI comp_def cong: map_cong)
qed

lemma sweep_store:
  "fst (sweep no_faults now s) =
     s\<lparr>seat_locks := filter (\<lambda>l. \<not> locked_until l < now) (seat_locks s)\<rparr>"
proof (cases "filter (\<lambda>l. locked_until l < now) (seat_locks s) = []")
  case True
  then have "\<forall>l\<in>set (seat_locks s). \<not> locked_until l < now"
    by (simp add: filter_empty_conv)
  then have "filter (\<lambda>l. \<not> locked_until l < now) (seat_locks s) = seat_locks s"
    by (simp add: filter_id_conv)
  with True show ?thesis
    by (simp add: sweep_def no_faults_def)
next
  case False
  then show ?thesis
    by (simp add: sweep_def no_faults_def Let_def)
qed

lemma sweep_events:
  "snd (sweep no_faults now s) =
     map (\<lambda>(showtimeId, seatIds). (WholeRoom (room_of showtimeId), SeatsReleased seatIds))
         (group_by_showtime (expired now s))"
proof (cases "filter (\<lambda>l. locked_until l < now) (seat_locks s) = []")
  case True
  then show ?thesis
    by (simp add: sweep_def no_faults_def expired_def group_by_showtime_def)
next
  case False
  then show ?thesis
    by (simp add: sweep_def no_faults_def expired_def Let_def)
qed

lemma sweep_events_per_showtime:
  "snd (sweep no_faults now s) =
     map (\<lambda>k. (WholeRoom (room_of k), SeatsReleased (seats_of k (expired now s))))
         (map fst (group_by_showtime (expired now s)))"
proof -
  have "map (\<lambda>(showtimeId, seatIds). (WholeRoom (room_of showtimeId), SeatsReleased seatIds))
         (group_by_showtime (expired now s)) =
        map (\<lambda>(showtimeId, seatIds). (WholeRoom (room_of showtimeId), SeatsReleased seatIds))
         (map (\<lambda>k. (k, seats_of k (expired now s))) (map fst (group_by_showtime (expired now s))))"
    using group_by_showtime_seats [of "expired now s"] by simp
  then show ?thesis
    by (simp add: sweep_events comp_def)
qed

lemma sweep_keeps:
  "l \<in> set (seat_locks s) \<Longrightarrow> t \<le> locked_until l \<Longrightarrow>
     l \<in> set (seat_locks (fst (sweep no_faults t s)))"
  by (simp add: sweep_store)

lemma sweeps_keep:
  "l \<in> set (seat_locks s) \<Longrightarrow> \<forall>t\<in>set ts. t \<le> locked_until l \<Longrightarrow>
     l \<in> set (seat_locks (sweeps ts s))"
proof (induction ts arbitrary: s)
  case Nil
  then show ?case by simp
next
  case (Cons t ts)
  from Cons.prems have "l \<in> set (seat_locks (fst (sweep no_faults t s)))"
    by (intro sweep_keeps) simp_all
  with Cons show ?case by simp
qed

lemma sweep_removes:
  "locked_until l < t \<Longrightarrow> l \<notin> set (seat_locks (fst (sweep no_faults t s)))"
  by (simp add: sweep_store)

lemma in_set_map: "k \<in> set ks \<Longrightarrow> f k \<in> set (map f ks)"
  by simp

lemma sweep_announces:
  assumes "l \<in> set (seat_locks s)" and "locked_until l < t"
  shows "(WholeRoom (room_of (sl_showtime_id l)),
          SeatsReleased (seats_of (sl_showtime_id l) (expired t s)))
           \<in> set (snd (sweep no_faults t s)) \<and>
         sl_seat_id l \<in> set (seats_of (sl_showtime_id l) (expired t s))"
proof -
  from assms have ex: "l \<in> set (expired t s)"
    by (simp add: expired_def)
  then have "sl_showtime_id l \<in> set (map fst (group_by_showtime (expired t s)))"
    using group_by_showtime_keys [of "expired t s"] by auto
  then have "(WholeRoom (room_of (sl_showtime_id l)),
          SeatsReleased (seats_of (sl_showtime_id l) (expired t s)))
           \<in> set (snd (sweep no_faults t s))"
    unfolding sweep_events_per_showtime by (rule in_set_map)
  moreover from ex have "sl_seat_id l \<in> set (seats_of (sl_showtime_id l) (expired t s))"
    by (auto simp add: seats_of_def)
  ultimately show ?thesis by blast
qed

lemma sweeps_snoc: "sweeps (ts @ [t]) s = fst (sweep no_faults t (sweeps ts s))"
  by (induction ts arbitrary: s) simp_all

lemma first_tick_after:
  assumes "start \<le> e"
  shows "\<exists>k. e < tick_time start k \<and> tick_time start k \<le> e + sweep_interval_ms \<and>
             (\<forall>j<k. tick_time start j \<le> e)"
proof -
  define k where "k = nat ((e - start) div 60000)"
  from assms have nn: "0 \<le> (e - start) div 60000"
    by simp
  then have ik: "int k = (e - start) div 60000"
    by (simp add: k_def)
  have split: "e - start = 60000 * ((e - start) div 60000) + (e - start) mod 60000"
    by simp
  have r0: "0 \<le> (e - start) mod 60000" and r1: "(e - start) mod 60000 < 60000"
    by simp_all
  have lo: "int k * 60000 \<le> e - start"
    using split r0 unfolding ik by linarith
  have hi: "e - start < (int k + 1) * 60000"
  proof -
    have "((e - start) div 60000 + 1) * 60000 = 60000 * ((e - start) div 60000) + 60000"
      by (simp add: algebra_simps)
    with split r1 show ?thesis
      unfolding ik by linarith
  qed
  have "e < tick_time start k"
    using hi by (simp add: tick_time_def sweep_interval_ms_def)
  moreover have "tick_time start k \<le> e + sweep_interval_ms"
    using lo by (simp add: tick_time_def sweep_interval_ms_def)
  moreover have "tick_time start j \<le> e" if "j < k" for j
  proof -
    from that have "int j + 1 \<le> int k" by simp
    then have "(int j + 1) * 60000 \<le> int k * 60000" by simp
    with lo show ?thesis
      by (simp add: tick_time_def sweep_interval_ms_def)
  qed
  ultimately show ?thesis by blast
qed

text \<open>
  C5. The sweeper runs every 60000 ms. A tick at \<open>now\<close> deletes exactly the locks that
  expired before \<open>now\<close> and changes nothing else; it emits one \<^verbatim>\<open>seats-released\<close> event
  for each showtime that has an expired lock, to that showtime's room, carrying the seats
  of the expired locks of that showtime. A lock that nothing but the sweeper touches,
  expiring at or after the start of the timer, is still stored after every tick up to
  its expiry, and the first tick after its expiry, at most one interval later, deletes
  it and announces its seat to its showtime's room.
\<close>

theorem sweep_tick:
  "sweep_interval_ms = 60000 \<and>
   fst (sweep no_faults now s) =
     s\<lparr>seat_locks := filter (\<lambda>l. \<not> locked_until l < now) (seat_locks s)\<rparr> \<and>
   snd (sweep no_faults now s) =
     map (\<lambda>k. (WholeRoom (room_of k), SeatsReleased (seats_of k (expired now s))))
         (map fst (group_by_showtime (expired now s))) \<and>
   distinct (map fst (group_by_showtime (expired now s))) \<and>
   set (map fst (group_by_showtime (expired now s))) = sl_showtime_id ` set (expired now s) \<and>
   (l \<in> set (seat_locks s) \<and> start \<le> locked_until l \<longrightarrow>
      (\<exists>k. locked_until l < tick_time start k \<and>
           tick_time start k \<le> locked_until l + sweep_interval_ms \<and>
           l \<in> set (seat_locks (sweeps (map (tick_time start) [0..<k]) s)) \<and>
           l \<notin> set (seat_locks (sweeps (map (tick_time start) [0..<Suc k]) s)) \<and>
           (WholeRoom (room_of (sl_showtime_id l)),
            SeatsReleased
              (seats_of (sl_showtime_id l)
                 (expired (tick_time start k) (sweeps (map (tick_time start) [0..<k]) s))))
             \<in> set (snd (sweep no_faults (tick_time start k)
                             (sweeps (map (tick_time start) [0..<k]) s))) \<and>
           sl_seat_id l \<in>
             set (seats_of (sl_showtime_id l)
                    (expired (tick_time start k) (sweeps (map (tick_time start) [0..<k]) s)))))"
proof -
  have first: "\<exists>k. locked_until l < tick_time start k \<and>
           tick_time start k \<le> locked_until l + sweep_interval_ms \<and>
           l \<in> set (seat_locks (sweeps (map (tick_time start) [0..<k]) s)) \<and>
           l \<notin> set (seat_locks (sweeps (map (tick_time start) [0..<Suc k]) s)) \<and>
           (WholeRoom (room_of (sl_showtime_id l)),
            SeatsReleased
              (seats_of (sl_showtime_id l)
                 (expired (tick_time start k) (sweeps (map (tick_time start) [0..<k]) s))))
             \<in> set (snd (sweep no_faults (tick_time start k)
                             (sweeps (map (tick_time start) [0..<k]) s))) \<and>
           sl_seat_id l \<in>
             set (seats_of (sl_showtime_id l)
                    (expired (tick_time start k) (sweeps (map (tick_time start) [0..<k]) s)))"
    if l: "l \<in> set (seat_locks s)" and st: "start \<le> locked_until l"
  proof -
    from first_tick_after [OF st] obtain k where
      after: "locked_until l < tick_time start k"
      and soon: "tick_time start k \<le> locked_until l + sweep_interval_ms"
      and before: "\<forall>j<k. tick_time start j \<le> locked_until l"
      by blast
    let ?s = "sweeps (map (tick_time start) [0..<k]) s"
    from before have "\<forall>t\<in>set (map (tick_time start) [0..<k]). t \<le> locked_until l"
      by auto
    with l have kept: "l \<in> set (seat_locks ?s)"
      by (rule sweeps_keep)
    have "sweeps (map (tick_time start) [0..<Suc k]) s =
            fst (sweep no_faults (tick_time start k) ?s)"
      by (simp add: sweeps_snoc)
    with after have gone: "l \<notin> set (seat_locks (sweeps (map (tick_time start) [0..<Suc k]) s))"
      by (simp add: sweep_removes)
    from sweep_announces [OF kept after] after soon kept gone show ?thesis
      by blast
  qed
  from sweep_store [of now s] sweep_events_per_showtime [of now s]
    group_by_showtime_keys [of "expired now s"] first
  show ?thesis
    by (simp add: sweep_interval_ms_def)
qed

text \<open>
  A lock taken at instant 0 expires at 600000. With the timer started at 1000, the tick
  at 541000 leaves it and the tick at 601000, one second after the expiry, deletes it
  and announces seat A2.
\<close>

theorem sweep_tick_witness:
  "seat_locks demo_store = [demo_lock] \<and> (1000 :: int) \<le> locked_until demo_lock \<and>
   tick_time 1000 8 = 541000 \<and> tick_time 1000 9 = 601000 \<and>
   sweep no_faults 541000 demo_store = (demo_store, []) \<and>
   sweep no_faults 601000 demo_store =
     (demo_store\<lparr>seat_locks := []\<rparr>, [(WholeRoom ''showtime-S1'', SeatsReleased [''A2''])])"
proof -
  note tick = sweep_tick [of 601000 demo_store demo_lock 1000]
  have store: "fst (sweep no_faults 601000 demo_store) =
     demo_store\<lparr>seat_locks := filter (\<lambda>l. \<not> locked_until l < 601000) (seat_locks demo_store)\<rparr>"
    using tick by (rule conjunct2 [THEN conjunct1])
  have events: "snd (sweep no_faults 601000 demo_store) =
     map (\<lambda>k. (WholeRoom (room_of k), SeatsReleased (seats_of k (expired 601000 demo_store))))
         (map fst (group_by_showtime (expired 601000 demo_store)))"
    using tick by (rule conjunct2 [THEN conjunct2, THEN conjunct1])
  have a: "fst (sweep no_faults 601000 demo_store) = demo_store\<lparr>seat_locks := []\<rparr>"
    unfolding store by (simp add: demo_store_def)
  have b: "snd (sweep no_faults 601000 demo_store) =
      [(WholeRoom ''showtime-S1'', SeatsReleased [''A2''])]"
    unfolding events
    by (simp add: expired_def seats_of_def group_by_showtime_def demo_store_def room_of_def)
  have c: "sweep no_faults 541000 demo_store = (demo_store, [])"
    by (simp add: sweep_def no_faults_def demo_store_def)
  have d: "tick_time 1000 8 = 541000 \<and> tick_time 1000 9 = 601000"
    by (simp add: tick_time_def sweep_interval_ms_def)
  have e: "seat_locks demo_store = [demo_lock] \<and> (1000 :: int) \<le> locked_until demo_lock"
    by (simp add: demo_store_def demo_lock_def)
  from a b have "sweep no_faults 601000 demo_store =
     (demo_store\<lparr>seat_locks := []\<rparr>, [(WholeRoom ''showtime-S1'', SeatsReleased [''A2''])])"
    by (simp add: prod_eq_iff)
  with c d e show ?thesis by blast
qed

end
